theory Spec2Isabelle
  imports Main "HOL-Library.Word" "HOL-Library.Multiset"
begin

section \<open>SocksAuth: a SOCKS5 forwarding proxy\<close>

text \<open>
  A shallow embedding of \<^verbatim>\<open>api.go\<close> (the protocol engine and the accept loop) and of
  the NordVPN server finder (the resolver). Go's \<^verbatim>\<open>byte\<close> is an 8-bit word, a
  \<^verbatim>\<open>[]byte\<close> is a list of bytes, and a Go \<^verbatim>\<open>string\<close> that goes on the wire is
  the list of its bytes.
\<close>

type_synonym byte = "8 word"

subsection \<open>Protocol constants\<close>

abbreviation (input) SOCKS_VERSION :: byte where "SOCKS_VERSION \<equiv> 0x05"
abbreviation (input) NO_ACCEPTABLE_METHODS :: byte where "NO_ACCEPTABLE_METHODS \<equiv> 0xff"
abbreviation (input) NO_AUTHENTICATION :: byte where "NO_AUTHENTICATION \<equiv> 0x00"
abbreviation (input) USERNAME_PASSWORD_AUTH :: byte where "USERNAME_PASSWORD_AUTH \<equiv> 0x02"
abbreviation (input) CONNECT :: byte where "CONNECT \<equiv> 0x01"
abbreviation (input) STATUS_OK :: byte where "STATUS_OK \<equiv> 0x00"
abbreviation (input) GENERAL_SOCKS_FAILURE :: byte where "GENERAL_SOCKS_FAILURE \<equiv> 0x01"
abbreviation (input) CONN_NOT_ALLOWED_BY_RULESET :: byte where "CONN_NOT_ALLOWED_BY_RULESET \<equiv> 0x02"
abbreviation (input) NETWORK_UNREACHABLE :: byte where "NETWORK_UNREACHABLE \<equiv> 0x03"
abbreviation (input) HOST_UNREACHABLE :: byte where "HOST_UNREACHABLE \<equiv> 0x04"
abbreviation (input) CONN_REFUSED :: byte where "CONN_REFUSED \<equiv> 0x05"
abbreviation (input) TTL_EXPIRED :: byte where "TTL_EXPIRED \<equiv> 0x06"
abbreviation (input) COMMAND_NOT_SUPPORTED :: byte where "COMMAND_NOT_SUPPORTED \<equiv> 0x07"
abbreviation (input) ADDRESS_TYPE_NOT_SUPPORTED :: byte where "ADDRESS_TYPE_NOT_SUPPORTED \<equiv> 0x08"
abbreviation (input) IP_V4 :: byte where "IP_V4 \<equiv> 0x01"
abbreviation (input) DOMAIN_NAME :: byte where "DOMAIN_NAME \<equiv> 0x03"
abbreviation (input) IP_V6 :: byte where "IP_V6 \<equiv> 0x04"
abbreviation (input) IPv4len :: nat where "IPv4len \<equiv> 4"
abbreviation (input) IPv6len :: nat where "IPv6len \<equiv> 16"

subsection \<open>Connections\<close>

text \<open>
  A \<^verbatim>\<open>net.Conn\<close> as the code sees it. \<open>inp\<close> is the byte stream the peer delivers
  before the stream ends; \<open>out\<close> is the concatenation of every byte slice the program
  has handed to \<^verbatim>\<open>Write\<close>, in call order; \<open>wfails\<close> says, for the successive
  \<^verbatim>\<open>Write\<close> calls still to come, whether the call reports an error (a call beyond
  the list reports none); \<open>closed\<close> is set by \<^verbatim>\<open>Close\<close>. No modelled function
  reads or writes a connection after closing it.
\<close>

record conn =
  inp :: "byte list"
  out :: "byte list"
  wfails :: "bool list"
  closed :: bool

datatype io_error = EOF | ErrUnexpectedEOF | ErrWrite

text \<open>The outcome of one \<^verbatim>\<open>io.Copy\<close>: the operating system's error, if any.\<close>

datatype net_error = ECONNRESET | EPIPE | ErrClosed | ErrOther nat

datatype direction = ClientToRemote | RemoteToClient

text \<open>
  One constructor per \<^verbatim>\<open>fmt.Errorf\<close> of \<^verbatim>\<open>api.go\<close> and of
  \<^verbatim>\<open>FindNordVpnServer\<close>; a \<^verbatim>\<open>%w\<close> or \<^verbatim>\<open>%d\<close> argument is the constructor's
  argument. \<open>LookupError\<close> stands for whatever \<^verbatim>\<open>findNordVpnServers\<close> fails with.
\<close>

datatype error =
    ErrReadingHeader io_error
  | UnsupportedVersion byte
  | ErrReadingMethods io_error
  | NoSupportedAuthMethods
  | ErrSendingAuthMethods io_error
  | ErrReadingMethodSelection io_error
  | MethodNotSelected byte
  | ErrSendingUserPass io_error
  | ErrReadingAuthResponse io_error
  | AuthenticationFailed
  | ErrReadingRequestHeader io_error
  | UnsupportedCommand byte
  | ErrReadingDomainLength io_error
  | UnknownAddressType byte
  | ErrReadingRequestRest io_error
  | ErrReadingResponseHeader io_error
  | GeneralSocksFailure
  | ConnNotAllowedByRuleset
  | NetworkUnreachable
  | HostUnreachable
  | ConnRefused
  | TTLExpired
  | CommandNotSupported
  | AddressTypeNotSupported
  | UnknownReply byte
  | ErrReadingResponseRest io_error
  | ErrReadingRequestFromClient error
  | ErrForwardingRequest io_error
  | ErrReadingResponseFromRemote error
  | ErrForwardingResponse io_error
  | ErrCopying direction net_error
  | ErrGreetingClient error
  | ErrAuthenticating error
  | ErrSendingRequest error
  | ErrSyncing error
  | ErrConnecting
  | LookupError
  | NoSocksServerFound

text \<open>
  \<^verbatim>\<open>io.ReadFull(conn, buf)\<close> with \<open>len(buf) = n\<close>: exactly \<open>n\<close> bytes are taken
  from the stream, or the stream ends first, what was left of it is consumed and the call
  fails (\<^verbatim>\<open>io.EOF\<close> when nothing was read, \<^verbatim>\<open>io.ErrUnexpectedEOF\<close> otherwise).
  With \<open>n = 0\<close> nothing is read and the call succeeds.
\<close>

definition ReadFull :: "conn \<Rightarrow> nat \<Rightarrow> conn \<times> (io_error + byte list)" where
  "ReadFull c n =
     (if n \<le> length (inp c)
      then (c\<lparr>inp := drop n (inp c)\<rparr>, Inr (take n (inp c)))
      else (c\<lparr>inp := []\<rparr>, Inl (if inp c = [] then EOF else ErrUnexpectedEOF)))"

definition Write :: "conn \<Rightarrow> byte list \<Rightarrow> conn \<times> io_error option" where
  "Write c b =
     (case wfails c of
        [] \<Rightarrow> (c\<lparr>out := out c @ b\<rparr>, None)
      | f # fs \<Rightarrow> (c\<lparr>out := out c @ b, wfails := fs\<rparr>, if f then Some ErrWrite else None))"

definition Close :: "conn \<Rightarrow> conn" where
  "Close c = c\<lparr>closed := True\<rparr>"

subsection \<open>Greeting the client\<close>

fun contains :: "'a list \<Rightarrow> 'a \<Rightarrow> bool" where
  "contains [] item = False"
| "contains (s # rest) item = (if s = item then True else contains rest item)"

definition greetClient :: "conn \<Rightarrow> conn \<times> error option" where
  "greetClient clientConn =
     (case ReadFull clientConn 2 of
        (c1, Inl e) \<Rightarrow> (c1, Some (ErrReadingHeader e))
      | (c1, Inr header) \<Rightarrow>
          let socksVersion = header ! 0 in
          if socksVersion \<noteq> SOCKS_VERSION then (c1, Some (UnsupportedVersion socksVersion))
          else
            let numMethods = unat (header ! 1) in
            (case ReadFull c1 numMethods of
               (c2, Inl e) \<Rightarrow> (c2, Some (ErrReadingMethods e))
             | (c2, Inr methods) \<Rightarrow>
                 if \<not> contains methods NO_AUTHENTICATION
                 then (fst (Write c2 [SOCKS_VERSION, NO_ACCEPTABLE_METHODS]),
                       Some NoSupportedAuthMethods)
                 else (fst (Write c2 [SOCKS_VERSION, NO_AUTHENTICATION]), None)))"

subsection \<open>Authenticating with the upstream\<close>

text \<open>
  Go's \<^verbatim>\<open>copy(dst[off:], src)\<close>: overwrites \<open>dst\<close> from offset \<open>off\<close> with as many
  bytes of \<open>src\<close> as fit; the length of \<open>dst\<close> does not change.
\<close>

definition copy_at :: "byte list \<Rightarrow> nat \<Rightarrow> byte list \<Rightarrow> byte list" where
  "copy_at dst off src =
     take off dst @ take (length dst - off) src @ drop (off + length src) dst"

text \<open>
  The username/password request of RFC 1929 as lines 304 to 309 build it;
  \<^verbatim>\<open>byte(len(s))\<close> keeps the low 8 bits of the length.
\<close>

definition authRequest :: "byte list \<Rightarrow> byte list \<Rightarrow> byte list" where
  "authRequest username password =
     (let a0 = replicate (3 + length username + length password) (0 :: byte);
          a1 = a0[0 := 0x01];
          a2 = a1[1 := of_nat (length username)];
          a3 = copy_at a2 2 username;
          a4 = a3[2 + length username := of_nat (length password)];
          a5 = copy_at a4 (3 + length username) password
      in a5)"

definition authenticateRemoteSocks :: "conn \<Rightarrow> byte list \<Rightarrow> byte list \<Rightarrow> conn \<times> error option" where
  "authenticateRemoteSocks conn username password =
     (case Write conn [SOCKS_VERSION, 0x01, USERNAME_PASSWORD_AUTH] of
        (c1, Some e) \<Rightarrow> (c1, Some (ErrSendingAuthMethods e))
      | (c1, None) \<Rightarrow>
          (case ReadFull c1 2 of
             (c2, Inl e) \<Rightarrow> (c2, Some (ErrReadingMethodSelection e))
           | (c2, Inr response) \<Rightarrow>
               if response ! 1 \<noteq> USERNAME_PASSWORD_AUTH
               then (c2, Some (MethodNotSelected (response ! 1)))
               else
                 (case Write c2 (authRequest username password) of
                    (c3, Some e) \<Rightarrow> (c3, Some (ErrSendingUserPass e))
                  | (c3, None) \<Rightarrow>
                      (case ReadFull c3 2 of
                         (c4, Inl e) \<Rightarrow> (c4, Some (ErrReadingAuthResponse e))
                       | (c4, Inr response2) \<Rightarrow>
                           if response2 ! 1 \<noteq> STATUS_OK
                           then (c4, Some AuthenticationFailed)
                           else (c4, None)))))"

subsection \<open>Forwarding the CONNECT exchange\<close>

definition readSocks5Request :: "conn \<Rightarrow> conn \<times> (error + byte list)" where
  "readSocks5Request conn =
     (case ReadFull conn 4 of
        (c1, Inl e) \<Rightarrow> (c1, Inl (ErrReadingRequestHeader e))
      | (c1, Inr requestHeader) \<Rightarrow>
          let version = requestHeader ! 0 in
          if version \<noteq> SOCKS_VERSION then (c1, Inl (UnsupportedVersion version))
          else
            let cmd = requestHeader ! 1 in
            if cmd \<noteq> CONNECT
            then (fst (Write c1 [SOCKS_VERSION, COMMAND_NOT_SUPPORTED]), Inl (UnsupportedCommand cmd))
            else
              let atyp = requestHeader ! 3;
                  rest = (\<lambda>c requestHeader addrLen.
                    case ReadFull c (addrLen + 2) of
                      (c3, Inl e) \<Rightarrow>
                        (fst (Write c3 [SOCKS_VERSION, GENERAL_SOCKS_FAILURE]),
                         Inl (ErrReadingRequestRest e))
                    | (c3, Inr requestRest) \<Rightarrow> (c3, Inr (requestHeader @ requestRest)))
              in
              if atyp = IP_V4 then rest c1 requestHeader IPv4len
              else if atyp = DOMAIN_NAME then
                (case ReadFull c1 1 of
                   (c2, Inl e) \<Rightarrow> (c2, Inl (ErrReadingDomainLength e))
                 | (c2, Inr lengthByte) \<Rightarrow>
                     rest c2 (requestHeader @ lengthByte) (unat (lengthByte ! 0)))
              else if atyp = IP_V6 then rest c1 requestHeader IPv6len
              else (fst (Write c1 [SOCKS_VERSION, ADDRESS_TYPE_NOT_SUPPORTED]),
                    Inl (UnknownAddressType atyp)))"

text \<open>
  The error of a reply code other than \<open>STATUS_OK\<close>, and the second byte of the two
  bytes the code writes to \<open>conn\<close> before it returns that error (the switch of lines
  460 to 489).
\<close>

definition replyFailure :: "byte \<Rightarrow> (byte \<times> error) option" where
  "replyFailure reply =
     (if reply = STATUS_OK then None
      else if reply = GENERAL_SOCKS_FAILURE then Some (reply, GeneralSocksFailure)
      else if reply = CONN_NOT_ALLOWED_BY_RULESET then Some (reply, ConnNotAllowedByRuleset)
      else if reply = NETWORK_UNREACHABLE then Some (reply, NetworkUnreachable)
      else if reply = HOST_UNREACHABLE then Some (reply, HostUnreachable)
      else if reply = CONN_REFUSED then Some (reply, ConnRefused)
      else if reply = TTL_EXPIRED then Some (reply, TTLExpired)
      else if reply = COMMAND_NOT_SUPPORTED then Some (reply, CommandNotSupported)
      else if reply = ADDRESS_TYPE_NOT_SUPPORTED then Some (reply, AddressTypeNotSupported)
      else Some (GENERAL_SOCKS_FAILURE, UnknownReply reply))"

definition readSocks5Response :: "conn \<Rightarrow> conn \<times> (error + byte list)" where
  "readSocks5Response conn =
     (case ReadFull conn 4 of
        (c1, Inl e) \<Rightarrow>
          (fst (Write c1 [SOCKS_VERSION, GENERAL_SOCKS_FAILURE]), Inl (ErrReadingResponseHeader e))
      | (c1, Inr header) \<Rightarrow>
          let version = header ! 0 in
          if version \<noteq> SOCKS_VERSION
          then (fst (Write c1 [SOCKS_VERSION, GENERAL_SOCKS_FAILURE]), Inl (UnsupportedVersion version))
          else
            (case replyFailure (header ! 1) of
               Some (code, err) \<Rightarrow> (fst (Write c1 [SOCKS_VERSION, code]), Inl err)
             | None \<Rightarrow>
                 let atyp = header ! 3;
                     rest = (\<lambda>c addrLen.
                       case ReadFull c (addrLen + 2) of
                         (c3, Inl e) \<Rightarrow>
                           (fst (Write c3 [SOCKS_VERSION, GENERAL_SOCKS_FAILURE]),
                            Inl (ErrReadingResponseRest e))
                       | (c3, Inr requestRest) \<Rightarrow> (c3, Inr (header @ requestRest)))
                 in
                 if atyp = IP_V4 then rest c1 IPv4len
                 else if atyp = DOMAIN_NAME then
                   (case ReadFull c1 1 of
                      (c2, Inl e) \<Rightarrow> (c2, Inl (ErrReadingDomainLength e))
                    | (c2, Inr lengthByte) \<Rightarrow> rest c2 (unat (lengthByte ! 0)))
                 else if atyp = IP_V6 then rest c1 IPv6len
                 else (fst (Write c1 [SOCKS_VERSION, ADDRESS_TYPE_NOT_SUPPORTED]),
                       Inl (UnknownAddressType atyp))))"

text \<open>The result is the client connection, the upstream connection and the error.\<close>

definition sendRemoteRequest :: "conn \<Rightarrow> conn \<Rightarrow> conn \<times> conn \<times> error option" where
  "sendRemoteRequest clientConn remoteConn =
     (case readSocks5Request clientConn of
        (c1, Inl e) \<Rightarrow> (c1, remoteConn, Some (ErrReadingRequestFromClient e))
      | (c1, Inr request) \<Rightarrow>
          (case Write remoteConn request of
             (r1, Some e) \<Rightarrow> (c1, r1, Some (ErrForwardingRequest e))
           | (r1, None) \<Rightarrow>
               (case readSocks5Response r1 of
                  (r2, Inl e) \<Rightarrow> (c1, r2, Some (ErrReadingResponseFromRemote e))
                | (r2, Inr response) \<Rightarrow>
                    (case Write c1 response of
                       (c2, Some e) \<Rightarrow> (c2, r2, Some (ErrForwardingResponse e))
                     | (c2, None) \<Rightarrow> (c2, r2, None)))))"

subsection \<open>Evicting a candidate\<close>

text \<open>
  \<^verbatim>\<open>removeAtIndexNoOrder\<close>: the index is a Go \<^verbatim>\<open>int\<close>. In range, the last element
  is stored at the index and the slice is cut by one.
\<close>

definition removeAtIndexNoOrder :: "'a list \<Rightarrow> int \<Rightarrow> 'a list" where
  "removeAtIndexNoOrder a idx =
     (if idx < 0 \<or> idx \<ge> int (length a) then a
      else butlast (a[nat idx := a ! (length a - 1)]))"

subsection \<open>The relay\<close>

text \<open>
  \<^verbatim>\<open>syncConns\<close> starts one goroutine per copy direction and waits for the first value
  on the channel \<^verbatim>\<open>done\<close>, which buffers one value. What a goroutine sends, in order,
  once its \<^verbatim>\<open>io.Copy\<close> has returned \<open>err\<close> (lines 337 to 345): \<^verbatim>\<open>nil\<close> on a
  reset by the peer, then, as that branch does not return, the wrapped error; the wrapped
  error alone on any other failure; \<^verbatim>\<open>nil\<close> alone when the copy ended without error.
\<close>

definition copier_sends :: "direction \<Rightarrow> net_error option \<Rightarrow> error option list" where
  "copier_sends d err =
     (if err = Some ECONNRESET then [None] else []) @
     (case err of Some e \<Rightarrow> [Some (ErrCopying d e)] | None \<Rightarrow> [None])"

text \<open>
  The interleaving is an explicit schedule: a list of the actors in the order in which
  they take their next step. A goroutine's step is its next send, which completes only
  while the channel's buffer has room; the step of the caller is the receive of line 363
  followed by the two \<^verbatim>\<open>Close\<close> calls and the return. A step that cannot be taken
  (a send on the full channel, a receive on the empty one) leaves the state as it is.
\<close>

datatype actor = Copier direction | Caller

record relay =
  done_chan :: "error option list"
  to_send_c2r :: "error option list"
  to_send_r2c :: "error option list"
  received :: "error option option"
  rl_client :: conn
  rl_remote :: conn

definition relay_init :: "net_error option \<Rightarrow> net_error option \<Rightarrow> conn \<Rightarrow> conn \<Rightarrow> relay" where
  "relay_init err_c2r err_r2c client remote =
     \<lparr>done_chan = [],
      to_send_c2r = copier_sends ClientToRemote err_c2r,
      to_send_r2c = copier_sends RemoteToClient err_r2c,
      received = None, rl_client = client, rl_remote = remote\<rparr>"

fun relay_step :: "actor \<Rightarrow> relay \<Rightarrow> relay" where
  "relay_step Caller s =
     (if received s \<noteq> None then s
      else case done_chan s of
             [] \<Rightarrow> s
           | err # buffered \<Rightarrow>
               s\<lparr>done_chan := buffered, received := Some err,
                 rl_client := Close (rl_client s), rl_remote := Close (rl_remote s)\<rparr>)"
| "relay_step (Copier ClientToRemote) s =
     (case to_send_c2r s of
        [] \<Rightarrow> s
      | v # later \<Rightarrow>
          if length (done_chan s) < 1
          then s\<lparr>done_chan := done_chan s @ [v], to_send_c2r := later\<rparr> else s)"
| "relay_step (Copier RemoteToClient) s =
     (case to_send_r2c s of
        [] \<Rightarrow> s
      | v # later \<Rightarrow>
          if length (done_chan s) < 1
          then s\<lparr>done_chan := done_chan s @ [v], to_send_r2c := later\<rparr> else s)"

text \<open>
  \<^verbatim>\<open>syncConns\<close> under a schedule, given what the two copies end with. \<open>None\<close>: the
  caller has not returned within the schedule.
\<close>

definition syncConns ::
  "actor list \<Rightarrow> net_error option \<Rightarrow> net_error option \<Rightarrow> conn \<Rightarrow> conn
     \<Rightarrow> (conn \<times> conn \<times> error option) option" where
  "syncConns sched err_c2r err_r2c client remote =
     (let s = fold relay_step sched (relay_init err_c2r err_r2c client remote)
      in case received s of
           None \<Rightarrow> None
         | Some err \<Rightarrow> Some (rl_client s, rl_remote s, err))"

text \<open>The copy direction whose goroutine is the first to send: the first one scheduled.\<close>

fun first_reporter :: "actor list \<Rightarrow> direction option" where
  "first_reporter [] = None"
| "first_reporter (Caller # sched) = first_reporter sched"
| "first_reporter (Copier d # sched) = Some d"

subsection \<open>Handling one connection\<close>

datatype stage = Greet | Dial | Authenticate | Forward | Relay

text \<open>
  What \<^verbatim>\<open>handleConnection\<close> leaves behind: the two connections, the stages it
  entered, the error it hands to \<^verbatim>\<open>onError\<close> (where one is installed), and whether
  it has returned (it has not while the relay is still running). The deferred
  \<^verbatim>\<open>remoteConn.Close()\<close> runs on every return after the dial.
\<close>

record session =
  s_client :: conn
  s_remote :: "conn option"
  s_stages :: "stage list"
  s_reported :: "error option"
  s_returned :: bool

text \<open>
  \<open>dialed\<close> is the result of \<^verbatim>\<open>getTcpConn\<close>; \<open>sched\<close>, \<open>err_c2r\<close> and
  \<open>err_r2c\<close> are the relay's schedule and the outcomes of its two copies.
\<close>

definition handleConnection ::
  "conn \<Rightarrow> error + conn \<Rightarrow> byte list \<Rightarrow> byte list
     \<Rightarrow> actor list \<Rightarrow> net_error option \<Rightarrow> net_error option \<Rightarrow> session" where
  "handleConnection clientConn dialed RemoteUser RemotePass sched err_c2r err_r2c =
     (case greetClient clientConn of
        (c1, Some err) \<Rightarrow>
          \<lparr>s_client = c1, s_remote = None, s_stages = [Greet],
           s_reported = Some (ErrGreetingClient err), s_returned = True\<rparr>
      | (c1, None) \<Rightarrow>
          (case dialed of
             Inl err \<Rightarrow>
               \<lparr>s_client = c1, s_remote = None, s_stages = [Greet, Dial],
                s_reported = Some err, s_returned = True\<rparr>
           | Inr remoteConn \<Rightarrow>
               (case authenticateRemoteSocks remoteConn RemoteUser RemotePass of
                  (r1, Some err) \<Rightarrow>
                    \<lparr>s_client = c1, s_remote = Some (Close r1),
                     s_stages = [Greet, Dial, Authenticate],
                     s_reported = Some (ErrAuthenticating err), s_returned = True\<rparr>
                | (r1, None) \<Rightarrow>
                    (case sendRemoteRequest c1 r1 of
                       (c2, r2, Some err) \<Rightarrow>
                         \<lparr>s_client = c2, s_remote = Some (Close r2),
                          s_stages = [Greet, Dial, Authenticate, Forward],
                          s_reported = Some (ErrSendingRequest err), s_returned = True\<rparr>
                     | (c2, r2, None) \<Rightarrow>
                         (case syncConns sched err_c2r err_r2c c2 r2 of
                            None \<Rightarrow>
                              \<lparr>s_client = c2, s_remote = Some r2,
                               s_stages = [Greet, Dial, Authenticate, Forward, Relay],
                               s_reported = None, s_returned = False\<rparr>
                          | Some (c3, r3, Some err) \<Rightarrow>
                              \<lparr>s_client = c3, s_remote = Some (Close r3),
                               s_stages = [Greet, Dial, Authenticate, Forward, Relay],
                               s_reported = Some (ErrSyncing err), s_returned = True\<rparr>
                          | Some (c3, r3, None) \<Rightarrow>
                              \<lparr>s_client = c3, s_remote = Some (Close r3),
                               s_stages = [Greet, Dial, Authenticate, Forward, Relay],
                               s_reported = None, s_returned = True\<rparr>)))))"

subsection \<open>The resolver\<close>

text \<open>
  The fields of \<^verbatim>\<open>nordServer\<close> that are plain values; the resolver reads
  \<open>Hostname\<close> only.
\<close>

record nordServer =
  ID :: int
  Name :: string
  Station :: string
  Hostname :: string
  Load :: int
  Status :: string

text \<open>
  \<^verbatim>\<open>rand.Intn(n)\<close> for \<open>n > 0\<close> returns an index below \<open>n\<close>: the draw \<open>r\<close> of
  the random source, reduced to the range.
\<close>

definition Intn :: "nat \<Rightarrow> nat \<Rightarrow> nat" where
  "Intn r n = r mod n"

text \<open>
  The loop of lines 126 to 145. \<open>rnd k\<close> is the \<open>k\<close>-th draw of the random source,
  \<open>probe addr\<close> says whether \<^verbatim>\<open>net.DialTimeout\<close> reaches \<open>addr\<close>, and
  \<open>servers\<close> is the package variable, returned as the loop leaves it.
\<close>

function FindNordVpnServer_loop ::
  "(nat \<Rightarrow> nat) \<Rightarrow> (string \<Rightarrow> bool) \<Rightarrow> nat \<Rightarrow> nordServer list
     \<Rightarrow> nordServer list \<times> (error + string)" where
  "FindNordVpnServer_loop rnd probe k servers =
     (if length servers = 0 then (servers, Inl NoSocksServerFound)
      else
        let randIdx = Intn (rnd k) (length servers);
            chosenAddr = Hostname (servers ! randIdx) @ '':1080''
        in if probe chosenAddr then (servers, Inr chosenAddr)
           else FindNordVpnServer_loop rnd probe (Suc k)
                  (removeAtIndexNoOrder servers (int randIdx)))"
  by pat_completeness auto
termination
  by (relation "measure (\<lambda>(rnd, probe, k, servers). length servers)")
     (auto simp: removeAtIndexNoOrder_def Intn_def not_le intro: mod_less_divisor)

declare FindNordVpnServer_loop.simps [simp del]

text \<open>
  \<open>discovered\<close> is what \<^verbatim>\<open>findNordVpnServers\<close> returns when it is called, which
  is when the cached list is empty; a failed lookup leaves the list empty.
\<close>

definition FindNordVpnServer ::
  "(nat \<Rightarrow> nat) \<Rightarrow> (string \<Rightarrow> bool) \<Rightarrow> error + nordServer list \<Rightarrow> nordServer list
     \<Rightarrow> nordServer list \<times> (error + string)" where
  "FindNordVpnServer rnd probe discovered servers =
     (if length servers = 0
      then (case discovered of
              Inl err \<Rightarrow> ([], Inl err)
            | Inr found \<Rightarrow> FindNordVpnServer_loop rnd probe 0 found)
      else FindNordVpnServer_loop rnd probe 0 servers)"

subsection \<open>The accept loop and its semaphore\<close>

text \<open>
  A send on a buffered channel of capacity \<open>cap\<close> that holds \<open>n\<close> values completes
  only while \<open>n < cap\<close>; \<open>None\<close>: the sender blocks. \<^verbatim>\<open>Start\<close> never receives
  from the channel.
\<close>

definition chan_send :: "nat \<Rightarrow> nat \<Rightarrow> nat option" where
  "chan_send cap n = (if n < cap then Some (Suc n) else None)"

text \<open>
  The state of \<^verbatim>\<open>Start\<close>: the number of values in the channel \<^verbatim>\<open>semaphore\<close>, the
  goroutines between lines 156 and 170 (\<open>OpenConnCount\<close>), the goroutines that have
  reached the send of line 173, and the connections admitted so far (\<open>ConnCount\<close>).
\<close>

record server =
  semaphore :: nat
  OpenConnCount :: nat
  releasing :: nat
  ConnCount :: nat

text \<open>
  \<open>Admit\<close>: the accept loop passes line 153 with an accepted connection and starts its
  goroutine. \<open>Finish\<close>: a goroutine runs from \<^verbatim>\<open>handleConnection\<close>'s return to line
  170. \<open>Release\<close>: a goroutine completes line 173. \<open>None\<close>: the event cannot happen in
  this state (its goroutine is blocked, or there is none).
\<close>

datatype event = Admit | Finish | Release

fun Start_step :: "nat \<Rightarrow> event \<Rightarrow> server \<Rightarrow> server option" where
  "Start_step openConnLimit Admit s =
     (if openConnLimit > 0
      then (case chan_send openConnLimit (semaphore s) of
              None \<Rightarrow> None
            | Some n \<Rightarrow>
                Some (s\<lparr>semaphore := n, OpenConnCount := OpenConnCount s + 1,
                        ConnCount := ConnCount s + 1\<rparr>))
      else Some (s\<lparr>OpenConnCount := OpenConnCount s + 1, ConnCount := ConnCount s + 1\<rparr>))"
| "Start_step openConnLimit Finish s =
     (if OpenConnCount s = 0 then None
      else Some (s\<lparr>OpenConnCount := OpenConnCount s - 1, releasing := releasing s + 1\<rparr>))"
| "Start_step openConnLimit Release s =
     (if releasing s = 0 then None
      else if openConnLimit > 0
      then (case chan_send openConnLimit (semaphore s) of
              None \<Rightarrow> None
            | Some n \<Rightarrow> Some (s\<lparr>semaphore := n, releasing := releasing s - 1\<rparr>))
      else Some (s\<lparr>releasing := releasing s - 1\<rparr>))"

fun Start_run :: "nat \<Rightarrow> event list \<Rightarrow> server \<Rightarrow> server option" where
  "Start_run openConnLimit [] s = Some s"
| "Start_run openConnLimit (ev # evs) s =
     (case Start_step openConnLimit ev s of
        None \<Rightarrow> None
      | Some s' \<Rightarrow> Start_run openConnLimit evs s')"

definition Start_init :: server where
  "Start_init = \<lparr>semaphore = 0, OpenConnCount = 0, releasing = 0, ConnCount = 0\<rparr>"

subsection \<open>The extent of a request, in the spec's words\<close>

text \<open>
  This definition follows the spec, not the code: a request is a 4-byte header
  (version, command, reserved, address type), then an address field sized by the type
  byte (4 bytes for IPv4, 16 for IPv6, one length byte \<open>L\<close> and \<open>L\<close> further bytes
  for a domain name), then 2 port bytes. \<open>spec_request_extent bs\<close> is the number of
  bytes of the stream \<open>bs\<close> that belong to the request at its start: the header alone
  when the header is not that of a version-5 CONNECT request with one of the three
  address types, and the header and the length byte when a domain name's stream ends on
  the length byte's place.
\<close>

fun spec_request_extent :: "byte list \<Rightarrow> nat" where
  "spec_request_extent (ver # cmd # rsv # atyp # after) =
     (if ver \<noteq> SOCKS_VERSION \<or> cmd \<noteq> CONNECT then 4
      else if atyp = IP_V4 then 4 + 4 + 2
      else if atyp = IP_V6 then 4 + 16 + 2
      else if atyp = DOMAIN_NAME
      then (case after of [] \<Rightarrow> 4 + 1 | L # name \<Rightarrow> 4 + (1 + unat L) + 2)
      else 4)"
| "spec_request_extent bs = 4"

subsection \<open>Auxiliary definitions\<close>

text \<open>What the copy of direction \<open>d\<close> ended with.\<close>

definition copy_err :: "net_error option \<Rightarrow> net_error option \<Rightarrow> direction \<Rightarrow> net_error option" where
  "copy_err err_c2r err_r2c d = (case d of ClientToRemote \<Rightarrow> err_c2r | RemoteToClient \<Rightarrow> err_r2c)"

text \<open>
  The invariant of the relay once a first value \<open>v\<close> has been sent: either \<open>v\<close> waits
  in the channel and the connections \<open>c\<close> and \<open>r\<close> are untouched, or the caller has
  received \<open>v\<close> and closed both.
\<close>

definition relay_settled :: "conn \<Rightarrow> conn \<Rightarrow> error option \<Rightarrow> relay \<Rightarrow> bool" where
  "relay_settled c r v s \<longleftrightarrow>
     (received s = None \<and> done_chan s = [v] \<and> rl_client s = c \<and> rl_remote s = r) \<or>
     (received s = Some v \<and> rl_client s = Close c \<and> rl_remote s = Close r)"

text \<open>A server entry with the host name \<open>h\<close>, for the examples.\<close>

definition example_server :: "string \<Rightarrow> nordServer" where
  "example_server h = \<lparr>ID = 0, Name = h, Station = [], Hostname = h, Load = 0, Status = ''online''\<rparr>"

section \<open>Properties\<close>

lemma contains_iff: "contains xs x \<longleftrightarrow> x \<in> set xs"
  by (induction xs) auto

subsection \<open>Reading and writing\<close>

lemma ReadFull_enough:
  "n \<le> length (inp c) \<Longrightarrow> ReadFull c n = (c\<lparr>inp := drop n (inp c)\<rparr>, Inr (take n (inp c)))"
  by (simp add: ReadFull_def)

lemma ReadFull_out: "out (fst (ReadFull c n)) = out c"
  by (simp add: ReadFull_def)

lemma Write_fst [simp]:
  "out (fst (Write c b)) = out c @ b" "inp (fst (Write c b)) = inp c"
  "closed (fst (Write c b)) = closed c" "wfails (fst (Write c b)) = tl (wfails c)"
  by (simp_all add: Write_def split: list.splits)

lemma Write_snd:
  "snd (Write c b) = (if wfails c \<noteq> [] \<and> hd (wfails c) then Some ErrWrite else None)"
  by (simp add: Write_def split: list.splits)

subsection \<open>The greeting\<close>

text \<open>
  Claim C3. A greeting is the version byte 5, the count \<open>n\<close> of methods and the \<open>n\<close>
  method bytes. If method \<open>0x00\<close> is among them, \<open>greetClient\<close> hands exactly
  \<open>[0x05, 0x00]\<close> to the client's \<^verbatim>\<open>Write\<close> and returns no error. If it is not (the
  empty list included), \<open>greetClient\<close> hands exactly \<open>[0x05, 0xFF]\<close> to \<^verbatim>\<open>Write\<close> and
  fails, and \<open>handleConnection\<close> returns after the greeting stage: it reports the
  error, never dials an upstream and writes nothing else. In both cases the greeting,
  and no byte after it, has been read.
\<close>

theorem greetClient_method_selection:
  assumes "inp c = SOCKS_VERSION # n # methods @ rest" and "unat n = length methods"
  shows "inp (fst (greetClient c)) = rest \<and>
         (NO_AUTHENTICATION \<in> set methods \<longrightarrow>
            out (fst (greetClient c)) = out c @ [0x05, 0x00] \<and> snd (greetClient c) = None) \<and>
         (NO_AUTHENTICATION \<notin> set methods \<longrightarrow>
            out (fst (greetClient c)) = out c @ [0x05, 0xFF] \<and>
            snd (greetClient c) = Some NoSupportedAuthMethods \<and>
            (let h = handleConnection c dialed user pass sched err_c2r err_r2c
             in s_stages h = [Greet] \<and> s_returned h \<and> s_remote h = None \<and>
                s_reported h = Some (ErrGreetingClient NoSupportedAuthMethods) \<and>
                out (s_client h) = out c @ [0x05, 0xFF]))"
proof -
  have hd: "ReadFull c 2 = (c\<lparr>inp := methods @ rest\<rparr>, Inr [SOCKS_VERSION, n])"
    using assms(1) by (simp add: ReadFull_def)
  have ms: "ReadFull (c\<lparr>inp := methods @ rest\<rparr>) (unat n) = (c\<lparr>inp := rest\<rparr>, Inr methods)"
    using assms(2) by (simp add: ReadFull_def)
  have g: "greetClient c =
             (if NO_AUTHENTICATION \<in> set methods
              then (fst (Write (c\<lparr>inp := rest\<rparr>) [0x05, 0x00]), None)
              else (fst (Write (c\<lparr>inp := rest\<rparr>) [0x05, 0xFF]), Some NoSupportedAuthMethods))"
    by (simp add: greetClient_def hd ms contains_iff)
  show ?thesis
    by (simp add: g handleConnection_def Let_def)
qed

theorem greetClient_method_selection_witness:
  "out (fst (greetClient \<lparr>inp = [0x05, 0x02, 0x02, 0x00], out = [], wfails = [], closed = False\<rparr>)) = [0x05, 0x00]
   \<and> snd (greetClient \<lparr>inp = [0x05, 0x02, 0x02, 0x00], out = [], wfails = [], closed = False\<rparr>) = None
   \<and> out (fst (greetClient \<lparr>inp = [0x05, 0x00], out = [], wfails = [], closed = False\<rparr>)) = [0x05, 0xFF]
   \<and> snd (greetClient \<lparr>inp = [0x05, 0x00], out = [], wfails = [], closed = False\<rparr>) = Some NoSupportedAuthMethods"
  using greetClient_method_selection
          [of "\<lparr>inp = [0x05, 0x02, 0x02, 0x00], out = [], wfails = [], closed = False\<rparr>" "0x02" "[0x02, 0x00]" "[]"]
        greetClient_method_selection
          [of "\<lparr>inp = [0x05, 0x00], out = [], wfails = [], closed = False\<rparr>" "0x00" "[]" "[]"]
  by simp

subsection \<open>The username/password request\<close>

lemma authRequest_eq:
  "authRequest u p = [0x01, of_nat (length u)] @ u @ [of_nat (length p)] @ p"
proof -
  define lu where "lu = length u"
  define lp where "lp = length p"
  define L :: byte where "L = of_nat lu"
  define P :: byte where "P = of_nat lp"
  have n: "3 + lu + lp = Suc (Suc (lu + Suc lp))" by simp
  have a2: "(replicate (3 + lu + lp) (0::byte))[0 := 1, 1 := L] = [1, L] @ replicate lu 0 @ replicate (Suc lp) 0"
    unfolding n by (simp add: replicate_add replicate_append_same)
  have a3: "copy_at ([1, L] @ replicate lu 0 @ replicate (Suc lp) 0) 2 u = [1, L] @ u @ replicate (Suc lp) 0"
    by (simp add: copy_at_def lu_def)
  have a4: "([1, L] @ u @ replicate (Suc lp) 0)[2 + lu := P] = [1, L] @ u @ [P] @ replicate lp 0"
    by (simp add: lu_def list_update_append)
  have a5: "copy_at ([1, L] @ u @ [P] @ replicate lp 0) (3 + lu) p = [1, L] @ u @ [P] @ p"
  proof -
    have m: "3 + lu = Suc (Suc (Suc lu))" by simp
    show ?thesis unfolding m by (simp add: copy_at_def lu_def lp_def)
  qed
  show ?thesis
    unfolding authRequest_def Let_def
    using a2 a3 a4 a5 by (simp add: lu_def lp_def L_def P_def)
qed

lemma authenticate_sends:
  assumes "snd (Write conn [SOCKS_VERSION, 0x01, USERNAME_PASSWORD_AUTH]) = None"
    and "2 \<le> length (inp conn)" and "inp conn ! 1 = USERNAME_PASSWORD_AUTH"
  shows "out (fst (authenticateRemoteSocks conn username password)) =
           out conn @ [SOCKS_VERSION, 0x01, USERNAME_PASSWORD_AUTH] @ authRequest username password"
proof -
  obtain c1 where w: "Write conn [SOCKS_VERSION, 0x01, USERNAME_PASSWORD_AUTH] = (c1, None)"
    using assms(1) by (cases "Write conn [SOCKS_VERSION, 0x01, USERNAME_PASSWORD_AUTH]") auto
  have c1: "inp c1 = inp conn" "out c1 = out conn @ [SOCKS_VERSION, 0x01, USERNAME_PASSWORD_AUTH]"
    using Write_fst(1,2)[of conn "[SOCKS_VERSION, 0x01, USERNAME_PASSWORD_AUTH]"] w by simp_all
  have r: "ReadFull c1 2 = (c1\<lparr>inp := drop 2 (inp conn)\<rparr>, Inr (take 2 (inp conn)))"
    using assms(2) c1 by (simp add: ReadFull_def)
  have sel: "take 2 (inp conn) ! 1 = USERNAME_PASSWORD_AUTH"
    using assms(2,3) by simp
  define c2 where "c2 = c1\<lparr>inp := drop 2 (inp conn)\<rparr>"
  have o2: "out (fst (Write c2 (authRequest username password))) = out conn @ [SOCKS_VERSION, 0x01, USERNAME_PASSWORD_AUTH] @ authRequest username password"
    by (simp add: c2_def c1)
  obtain c3 e3 where w3: "Write c2 (authRequest username password) = (c3, e3)"
    by (cases "Write c2 (authRequest username password)")
  have o3: "out c3 = out conn @ [SOCKS_VERSION, 0x01, USERNAME_PASSWORD_AUTH] @ authRequest username password"
    using o2 w3 by simp
  have rf: "out (fst (ReadFull c3 2)) = out c3"
    by (simp add: ReadFull_def)
  show ?thesis
    unfolding authenticateRemoteSocks_def w
    using r sel w3 o3 rf
    by (auto simp: c2_def split: option.splits sum.splits prod.splits)
qed

text \<open>
  Claim C7. For a username and a password of at most 255 bytes each, the request is the
  byte \<open>0x01\<close>, a byte \<open>ulen\<close>, the username, a byte \<open>plen\<close> and the password, where
  \<open>ulen\<close> and \<open>plen\<close> read as numbers are the lengths of the username and the password;
  and whenever \<open>authenticateRemoteSocks\<close> gets as far as sending the request (its method
  offer was written without error and the upstream selected username/password), these
  are the bytes it hands to \<^verbatim>\<open>Write\<close> after the offer.
\<close>

theorem authRequest_wire_format:
  assumes "length username \<le> 255" and "length password \<le> 255"
  shows "\<exists>ulen plen.
           authRequest username password = [0x01, ulen] @ username @ [plen] @ password \<and>
           unat ulen = length username \<and> unat plen = length password \<and>
           (\<forall>conn. snd (Write conn [SOCKS_VERSION, 0x01, USERNAME_PASSWORD_AUTH]) = None \<and>
                   2 \<le> length (inp conn) \<and> inp conn ! 1 = USERNAME_PASSWORD_AUTH \<longrightarrow>
                   out (fst (authenticateRemoteSocks conn username password)) =
                     out conn @ [SOCKS_VERSION, 0x01, USERNAME_PASSWORD_AUTH]
                       @ [0x01, ulen] @ username @ [plen] @ password)"
proof (intro exI conjI allI impI)
  show "authRequest username password =
          [0x01, of_nat (length username)] @ username @ [of_nat (length password)] @ password"
    by (rule authRequest_eq)
  show "unat (of_nat (length username) :: byte) = length username"
    using assms(1) by (simp add: unat_of_nat)
  show "unat (of_nat (length password) :: byte) = length password"
    using assms(2) by (simp add: unat_of_nat)
next
  fix conn
  assume "snd (Write conn [SOCKS_VERSION, 0x01, USERNAME_PASSWORD_AUTH]) = None \<and>
          2 \<le> length (inp conn) \<and> inp conn ! 1 = USERNAME_PASSWORD_AUTH"
  then show "out (fst (authenticateRemoteSocks conn username password)) =
               out conn @ [SOCKS_VERSION, 0x01, USERNAME_PASSWORD_AUTH]
                 @ [0x01, of_nat (length username)] @ username
                 @ [of_nat (length password)] @ password"
    using authenticate_sends [of conn username password] by (simp add: authRequest_eq)
qed

theorem authRequest_wire_format_witness:
  "authRequest [0x61, 0x62] [0x63] = [0x01, 0x02, 0x61, 0x62, 0x01, 0x63] \<and>
   out (fst (authenticateRemoteSocks
               \<lparr>inp = [0x05, 0x02, 0x01, 0x00], out = [], wfails = [], closed = False\<rparr>
               [0x61, 0x62] [0x63]))
     = [0x05, 0x01, 0x02, 0x01, 0x02, 0x61, 0x62, 0x01, 0x63]"
proof -
  from authRequest_wire_format [of "[0x61, 0x62]" "[0x63]"]
  obtain ulen plen :: byte where
    m: "authRequest [0x61, 0x62] [0x63] = [0x01, ulen] @ [0x61, 0x62] @ [plen] @ [0x63]"
    and l: "unat ulen = 2" "unat plen = 1"
    and s: "\<And>conn. snd (Write conn [SOCKS_VERSION, 0x01, USERNAME_PASSWORD_AUTH]) = None \<and>
                   2 \<le> length (inp conn) \<and> inp conn ! 1 = USERNAME_PASSWORD_AUTH \<Longrightarrow>
                   out (fst (authenticateRemoteSocks conn [0x61, 0x62] [0x63])) =
                     out conn @ [SOCKS_VERSION, 0x01, USERNAME_PASSWORD_AUTH]
                       @ [0x01, ulen] @ [0x61, 0x62] @ [plen] @ [0x63]"
    by auto
  from l have u: "ulen = 0x02" and p: "plen = 0x01"
    by (simp_all add: word_unat_eq_iff)
  show ?thesis
    using m s [of "\<lparr>inp = [0x05, 0x02, 0x01, 0x00], out = [], wfails = [], closed = False\<rparr>"]
    by (simp add: u p Write_def)
qed

subsection \<open>Eviction\<close>

lemma mset_butlast: "a \<noteq> [] \<Longrightarrow> mset (butlast a) = mset a - {#last a#}"
  by (induction a) auto

lemma mset_swap_remove:
  "i < length a \<Longrightarrow> mset (butlast (a[i := last a])) = mset a - {#a ! i#}"
  by (metis add_mset_remove_trivial last_list_update list.size(3)
      list_update_nonempty mset_butlast mset_update not_less_zero)

lemma removeAtIndexNoOrder_in_range:
  assumes "i < length a"
  shows "removeAtIndexNoOrder a (int i) = butlast (a[i := last a])"
    and "length (removeAtIndexNoOrder a (int i)) = length a - 1"
    and "mset (removeAtIndexNoOrder a (int i)) = mset a - {#a ! i#}"
proof -
  from assms have "a \<noteq> []" by auto
  then show r: "removeAtIndexNoOrder a (int i) = butlast (a[i := last a])"
    using assms by (simp add: removeAtIndexNoOrder_def last_conv_nth)
  show "length (removeAtIndexNoOrder a (int i)) = length a - 1"
    by (simp add: r)
  show "mset (removeAtIndexNoOrder a (int i)) = mset a - {#a ! i#}"
    using assms by (simp add: r mset_swap_remove)
qed

text \<open>
  Claim C10. For an index out of range (negative, or at least the length) the helper
  returns the slice as it is. For an index in range the result is one element shorter
  and holds, as a multiset, the elements of the slice less the one at the index.
\<close>

theorem removeAtIndexNoOrder_spec:
  "(idx < 0 \<or> idx \<ge> int (length a) \<longrightarrow> removeAtIndexNoOrder a idx = a) \<and>
   (0 \<le> idx \<and> idx < int (length a) \<longrightarrow>
      length (removeAtIndexNoOrder a idx) = length a - 1 \<and>
      mset (removeAtIndexNoOrder a idx) = mset a - {#a ! nat idx#})"
proof (intro conjI impI)
  assume "idx < 0 \<or> idx \<ge> int (length a)"
  then show "removeAtIndexNoOrder a idx = a"
    by (auto simp: removeAtIndexNoOrder_def)
next
  assume "0 \<le> idx \<and> idx < int (length a)"
  then have i: "nat idx < length a" and e: "int (nat idx) = idx" by auto
  show "length (removeAtIndexNoOrder a idx) = length a - 1"
    using removeAtIndexNoOrder_in_range(2) [OF i] unfolding e .
  show "mset (removeAtIndexNoOrder a idx) = mset a - {#a ! nat idx#}"
    using removeAtIndexNoOrder_in_range(3) [OF i] unfolding e .
qed

theorem removeAtIndexNoOrder_spec_witness:
  "removeAtIndexNoOrder [10, 20, 30 :: nat] 3 = [10, 20, 30] \<and>
   removeAtIndexNoOrder [10, 20, 30 :: nat] (- 1) = [10, 20, 30] \<and>
   length (removeAtIndexNoOrder [10, 20, 30 :: nat] 0) = 2 \<and>
   mset (removeAtIndexNoOrder [10, 20, 30 :: nat] 0) = {#20, 30#}"
  using removeAtIndexNoOrder_spec [of 3 "[10, 20, 30 :: nat]"]
        removeAtIndexNoOrder_spec [of "- 1" "[10, 20, 30 :: nat]"]
        removeAtIndexNoOrder_spec [of 0 "[10, 20, 30 :: nat]"]
  by simp

subsection \<open>Reading the CONNECT request\<close>

lemma drop_add_numeral_Cons [simp]:
  "drop (numeral k + n) (x # xs) = drop (pred_numeral k + n) xs"
  by (simp add: numeral_eq_Suc)

lemma take_add_numeral_Cons [simp]:
  "take (numeral k + n) (x # xs) = x # take (pred_numeral k + n) xs"
  by (simp add: numeral_eq_Suc)

lemma short_extent: "length bs < 4 \<Longrightarrow> spec_request_extent bs = 4"
  by (cases bs rule: spec_request_extent.cases) auto

lemma readSocks5Request_short:
  assumes "length (inp c) < 4"
  shows "inp (fst (readSocks5Request c)) = [] \<and> (\<exists>e. snd (readSocks5Request c) = Inl e)"
  using assms by (simp add: readSocks5Request_def ReadFull_def)

lemma readSocks5Request_header:
  assumes "inp c = ver # cmd # rsv # atyp # after"
  shows "inp (fst (readSocks5Request c)) = drop (spec_request_extent (inp c)) (inp c)"
    and "snd (readSocks5Request c) = Inr req \<Longrightarrow> req = take (spec_request_extent (inp c)) (inp c) \<and> spec_request_extent (inp c) \<le> length (inp c) \<and> ver = SOCKS_VERSION \<and> cmd = CONNECT \<and> (atyp = IP_V4 \<and> length req = 4 + 4 + 2 \<or> atyp = IP_V6 \<and> length req = 4 + 16 + 2 \<or> atyp = DOMAIN_NAME \<and> length req = 4 + (1 + unat (req ! 4)) + 2)"
proof -
  have h: "ReadFull c 4 = (c\<lparr>inp := after\<rparr>, Inr [ver, cmd, rsv, atyp])"
    using assms by (simp add: ReadFull_def)
  show "inp (fst (readSocks5Request c)) = drop (spec_request_extent (inp c)) (inp c)"
    unfolding readSocks5Request_def h using assms
    by (cases after) (auto simp: ReadFull_def Let_def split: prod.splits sum.splits)
  show "snd (readSocks5Request c) = Inr req \<Longrightarrow> req = take (spec_request_extent (inp c)) (inp c) \<and> spec_request_extent (inp c) \<le> length (inp c) \<and> ver = SOCKS_VERSION \<and> cmd = CONNECT \<and> (atyp = IP_V4 \<and> length req = 4 + 4 + 2 \<or> atyp = IP_V6 \<and> length req = 4 + 16 + 2 \<or> atyp = DOMAIN_NAME \<and> length req = 4 + (1 + unat (req ! 4)) + 2)"
    unfolding readSocks5Request_def h using assms
    by (cases after) (auto simp: ReadFull_def Let_def split: prod.splits sum.splits if_splits)
qed

text \<open>
  Claim C2. For every input stream, what \<open>readSocks5Request\<close> leaves unread is the
  stream less the request's extent, so no byte beyond the extent is ever read. When a
  request is returned, it is exactly the first bytes of the stream up to the extent: a
  version-5 CONNECT header of 4 bytes, then 4 address bytes for IPv4, 16 for IPv6, or for
  a domain name the length byte \<open>L\<close> and \<open>L\<close> bytes, then 2 port bytes.
\<close>

theorem readSocks5Request_reads_exactly:
  "inp (fst (readSocks5Request c)) = drop (spec_request_extent (inp c)) (inp c) \<and>
   (\<forall>req. snd (readSocks5Request c) = Inr req \<longrightarrow>
      req = take (spec_request_extent (inp c)) (inp c) \<and>
      length req = spec_request_extent (inp c) \<and>
      req ! 0 = SOCKS_VERSION \<and> req ! 1 = CONNECT \<and>
      (req ! 3 = IP_V4 \<and> length req = 4 + 4 + 2 \<or>
       req ! 3 = IP_V6 \<and> length req = 4 + 16 + 2 \<or>
       req ! 3 = DOMAIN_NAME \<and> length req = 4 + (1 + unat (req ! 4)) + 2))"
proof (cases "length (inp c) < 4")
  case True
  then show ?thesis
    using readSocks5Request_short [of c] by (auto simp: short_extent)
next
  case False
  then obtain ver cmd rsv atyp after where i: "inp c = ver # cmd # rsv # atyp # after"
    by (cases "inp c" rule: spec_request_extent.cases) auto
  have a: "inp (fst (readSocks5Request c)) = drop (spec_request_extent (inp c)) (inp c)"
    by (rule readSocks5Request_header(1) [OF i])
  have b: "req = take (spec_request_extent (inp c)) (inp c) \<and>
      length req = spec_request_extent (inp c) \<and>
      req ! 0 = SOCKS_VERSION \<and> req ! 1 = CONNECT \<and>
      (req ! 3 = IP_V4 \<and> length req = 4 + 4 + 2 \<or>
       req ! 3 = IP_V6 \<and> length req = 4 + 16 + 2 \<or>
       req ! 3 = DOMAIN_NAME \<and> length req = 4 + (1 + unat (req ! 4)) + 2)"
    if r: "snd (readSocks5Request c) = Inr req" for req
  proof -
    note h = readSocks5Request_header(2) [OF i r]
    from h have t: "req = take (spec_request_extent (inp c)) (inp c)"
      and le: "spec_request_extent (inp c) \<le> length (inp c)" by simp_all
    have len: "length req = spec_request_extent (inp c)"
      using t le by simp
    have four: "4 \<le> spec_request_extent (inp c)"
      by (simp add: i split: list.splits)
    have hd: "req ! 0 = ver" "req ! 1 = cmd" "req ! 3 = atyp"
      using four by (simp_all add: t i)
    show ?thesis using h len hd by auto
  qed
  show ?thesis using a b by blast
qed

theorem readSocks5Request_reads_exactly_witness:
  "inp (fst (readSocks5Request
      \<lparr>inp = [0x05, 0x01, 0x00, 0x03, 0x00, 0x00, 0x50, 0xAA], out = [], wfails = [], closed = False\<rparr>))
     = [0xAA]
   \<and> snd (readSocks5Request
      \<lparr>inp = [0x05, 0x01, 0x00, 0x03, 0x00, 0x00, 0x50, 0xAA], out = [], wfails = [], closed = False\<rparr>)
     = Inr [0x05, 0x01, 0x00, 0x03, 0x00, 0x00, 0x50]
   \<and> spec_request_extent [0x05, 0x01, 0x00, 0x03, 0x00, 0x00, 0x50, 0xAA] = 7
   \<and> inp (fst (readSocks5Request
      \<lparr>inp = [0x05, 0x01, 0x00, 0x03, 0xFF] @ replicate 255 0x61 @ [0x00, 0x50, 0xAA, 0xBB],
        out = [], wfails = [], closed = False\<rparr>))
     = [0xAA, 0xBB]"
proof -
  have zero:
    "inp (fst (readSocks5Request
        \<lparr>inp = [0x05, 0x01, 0x00, 0x03, 0x00, 0x00, 0x50, 0xAA], out = [], wfails = [], closed = False\<rparr>))
       = [0xAA]
     \<and> snd (readSocks5Request
        \<lparr>inp = [0x05, 0x01, 0x00, 0x03, 0x00, 0x00, 0x50, 0xAA], out = [], wfails = [], closed = False\<rparr>)
       = Inr [0x05, 0x01, 0x00, 0x03, 0x00, 0x00, 0x50]
     \<and> spec_request_extent [0x05, 0x01, 0x00, 0x03, 0x00, 0x00, 0x50, 0xAA] = 7"
    using readSocks5Request_reads_exactly
            [of "\<lparr>inp = [0x05, 0x01, 0x00, 0x03, 0x00, 0x00, 0x50, 0xAA], out = [], wfails = [], closed = False\<rparr>"]
    by (simp add: readSocks5Request_def ReadFull_def)
  have full:
    "inp (fst (readSocks5Request
        \<lparr>inp = [0x05, 0x01, 0x00, 0x03, 0xFF] @ replicate 255 0x61 @ [0x00, 0x50, 0xAA, 0xBB],
          out = [], wfails = [], closed = False\<rparr>))
       = [0xAA, 0xBB]"
    using readSocks5Request_reads_exactly
            [of "\<lparr>inp = [0x05, 0x01, 0x00, 0x03, 0xFF] @ replicate 255 0x61 @ [0x00, 0x50, 0xAA, 0xBB],
                  out = [], wfails = [], closed = False\<rparr>"]
    by simp
  show ?thesis using zero full by blast
qed

text \<open>
  Claim C6, as stated, fails. A request with command BIND and the unknown address type
  \<open>0x09\<close> is answered with "command not supported" and fails as an unsupported command,
  where the claim's second half asks for "address type not supported"; and a request
  whose version byte is 4 is refused for its version before the command is looked at,
  with nothing written.
\<close>

theorem unsupported_request_counterexample:
  "out (fst (readSocks5Request
       \<lparr>inp = [0x05, 0x02, 0x00, 0x09], out = [], wfails = [], closed = False\<rparr>))
     = [0x05, 0x07]
   \<and> snd (readSocks5Request
       \<lparr>inp = [0x05, 0x02, 0x00, 0x09], out = [], wfails = [], closed = False\<rparr>)
     = Inl (UnsupportedCommand 0x02)
   \<and> out (fst (readSocks5Request
       \<lparr>inp = [0x04, 0x02, 0x00, 0x01], out = [], wfails = [], closed = False\<rparr>))
     = []
   \<and> snd (readSocks5Request
       \<lparr>inp = [0x04, 0x02, 0x00, 0x01], out = [], wfails = [], closed = False\<rparr>)
     = Inl (UnsupportedVersion 0x04)"
  by (simp add: readSocks5Request_def ReadFull_def)

text \<open>
  Claim C6, amended. For a request with a complete header and version byte 5: if the
  command is not CONNECT, \<open>[0x05, 0x07]\<close> is written to the client and the step fails
  with the unsupported-command error; if the command is CONNECT and the address type is
  none of IPv4, domain name and IPv6, \<open>[0x05, 0x08]\<close> is written and the step fails
  with the unknown-address-type error. In both cases \<open>sendRemoteRequest\<close> returns the
  upstream connection as it got it: nothing is forwarded.
\<close>

theorem unsupported_request_rejected:
  assumes "inp clientConn = SOCKS_VERSION # cmd # rsv # atyp # after"
  shows "(cmd \<noteq> CONNECT \<longrightarrow>
            out (fst (readSocks5Request clientConn)) = out clientConn @ [0x05, 0x07] \<and>
            snd (readSocks5Request clientConn) = Inl (UnsupportedCommand cmd) \<and>
            snd (sendRemoteRequest clientConn remoteConn) =
              (remoteConn, Some (ErrReadingRequestFromClient (UnsupportedCommand cmd)))) \<and>
         (cmd = CONNECT \<and> atyp \<noteq> IP_V4 \<and> atyp \<noteq> DOMAIN_NAME \<and> atyp \<noteq> IP_V6 \<longrightarrow>
            out (fst (readSocks5Request clientConn)) = out clientConn @ [0x05, 0x08] \<and>
            snd (readSocks5Request clientConn) = Inl (UnknownAddressType atyp) \<and>
            snd (sendRemoteRequest clientConn remoteConn) =
              (remoteConn, Some (ErrReadingRequestFromClient (UnknownAddressType atyp))))"
proof -
  have h: "ReadFull clientConn 4 = (clientConn\<lparr>inp := after\<rparr>, Inr [SOCKS_VERSION, cmd, rsv, atyp])"
    using assms by (simp add: ReadFull_def)
  have c: "cmd \<noteq> CONNECT \<Longrightarrow> readSocks5Request clientConn =
             (fst (Write (clientConn\<lparr>inp := after\<rparr>) [0x05, 0x07]), Inl (UnsupportedCommand cmd))"
    by (simp add: readSocks5Request_def h)
  have a: "cmd = CONNECT \<and> atyp \<noteq> IP_V4 \<and> atyp \<noteq> DOMAIN_NAME \<and> atyp \<noteq> IP_V6 \<Longrightarrow>
           readSocks5Request clientConn =
             (fst (Write (clientConn\<lparr>inp := after\<rparr>) [0x05, 0x08]), Inl (UnknownAddressType atyp))"
    by (simp add: readSocks5Request_def h)
  show ?thesis
    using c a by (auto simp: sendRemoteRequest_def)
qed

theorem unsupported_request_rejected_witness:
  "out (fst (readSocks5Request
       \<lparr>inp = [0x05, 0x02, 0x00, 0x01], out = [], wfails = [], closed = False\<rparr>))
     = [0x05, 0x07]
   \<and> snd (readSocks5Request
       \<lparr>inp = [0x05, 0x02, 0x00, 0x01], out = [], wfails = [], closed = False\<rparr>)
     = Inl (UnsupportedCommand 0x02)
   \<and> out (fst (readSocks5Request
       \<lparr>inp = [0x05, 0x01, 0x00, 0x09], out = [], wfails = [], closed = False\<rparr>))
     = [0x05, 0x08]
   \<and> snd (readSocks5Request
       \<lparr>inp = [0x05, 0x01, 0x00, 0x09], out = [], wfails = [], closed = False\<rparr>)
     = Inl (UnknownAddressType 0x09)
   \<and> snd (sendRemoteRequest
       \<lparr>inp = [0x05, 0x01, 0x00, 0x09], out = [], wfails = [], closed = False\<rparr>
       \<lparr>inp = [], out = [], wfails = [], closed = False\<rparr>)
     = (\<lparr>inp = [], out = [], wfails = [], closed = False\<rparr>,
        Some (ErrReadingRequestFromClient (UnknownAddressType 0x09)))"
  using unsupported_request_rejected
          [of "\<lparr>inp = [0x05, 0x02, 0x00, 0x01], out = [], wfails = [], closed = False\<rparr>"
              "0x02" "0x00" "0x01" "[]"]
        unsupported_request_rejected
          [of "\<lparr>inp = [0x05, 0x01, 0x00, 0x09], out = [], wfails = [], closed = False\<rparr>"
              "0x01" "0x00" "0x09" "[]" "\<lparr>inp = [], out = [], wfails = [], closed = False\<rparr>"]
  by simp

subsection \<open>Forwarding the reply\<close>

text \<open>
  For a reply with a domain-name address, \<open>readSocks5Response\<close> reads the length byte
  and does not put it into what it returns, as \<open>readSocks5Request\<close> does.
\<close>

lemma readSocks5Response_domain:
  assumes "inp conn = SOCKS_VERSION # STATUS_OK # rsv # DOMAIN_NAME # L # after"
    and "unat L + 2 \<le> length after"
  shows "snd (readSocks5Response conn) =
           Inr ([SOCKS_VERSION, STATUS_OK, rsv, DOMAIN_NAME] @ take (unat L + 2) after)"
    and "inp (fst (readSocks5Response conn)) = drop (unat L + 2) after"
  using assms by (simp_all add: readSocks5Response_def replyFailure_def ReadFull_def)

text \<open>
  With an IPv4 or IPv6 address in the reply, the request and the reply are both passed
  on as they were read.
\<close>

lemma readSocks5Response_ip:
  assumes "inp conn = SOCKS_VERSION # STATUS_OK # rsv # atyp # after"
    and "atyp = IP_V4 \<and> n = 4 + 2 \<or> atyp = IP_V6 \<and> n = 16 + 2"
    and "n \<le> length after"
  shows "readSocks5Response conn =
           (conn\<lparr>inp := drop n after\<rparr>, Inr ([SOCKS_VERSION, STATUS_OK, rsv, atyp] @ take n after))"
  using assms by (auto simp: readSocks5Response_def replyFailure_def ReadFull_def)

lemma sendRemoteRequest_ip_reply:
  assumes "readSocks5Request clientConn = (c1, Inr request)"
    and "Write remoteConn request = (r1, None)"
    and "inp r1 = SOCKS_VERSION # STATUS_OK # rsv # atyp # after"
    and "atyp = IP_V4 \<and> n = 4 + 2 \<or> atyp = IP_V6 \<and> n = 16 + 2"
    and "n \<le> length after"
  shows "out (fst (snd (sendRemoteRequest clientConn remoteConn))) = out remoteConn @ request"
    and "out (fst (sendRemoteRequest clientConn remoteConn)) =
           out c1 @ [SOCKS_VERSION, STATUS_OK, rsv, atyp] @ take n after"
    and "inp (fst (snd (sendRemoteRequest clientConn remoteConn))) = drop n after"
proof -
  note rr = readSocks5Response_ip [OF assms(3,4,5)]
  have o: "out r1 = out remoteConn @ request"
    using assms(2) by (auto simp: Write_def split: list.splits)
  obtain c2 e where w: "Write c1 ([SOCKS_VERSION, STATUS_OK, rsv, atyp] @ take n after) = (c2, e)"
    by (cases "Write c1 ([SOCKS_VERSION, STATUS_OK, rsv, atyp] @ take n after)")
  have o2: "out c2 = out c1 @ [SOCKS_VERSION, STATUS_OK, rsv, atyp] @ take n after"
    using w by (auto simp: Write_def split: list.splits)
  have s: "sendRemoteRequest clientConn remoteConn =
             (c2, r1\<lparr>inp := drop n after\<rparr>, map_option ErrForwardingResponse e)"
    using w by (cases e) (simp_all add: sendRemoteRequest_def assms(1,2) rr)
  show "out (fst (snd (sendRemoteRequest clientConn remoteConn))) = out remoteConn @ request"
    by (simp add: s o)
  show "out (fst (sendRemoteRequest clientConn remoteConn)) =
           out c1 @ [SOCKS_VERSION, STATUS_OK, rsv, atyp] @ take n after"
    by (simp add: s o2)
  show "inp (fst (snd (sendRemoteRequest clientConn remoteConn))) = drop n after"
    by (simp add: s)
qed

text \<open>
  Claim C1 fails on the code for replies with a domain-name address. The client's
  request is forwarded to the upstream as read; the upstream's reply of 8 bytes, status
  OK, with the one-letter domain name \<open>a\<close>, is read in full, and 7 bytes are written to
  the client: the length byte \<open>0x01\<close> is missing.
\<close>

theorem domain_reply_loses_length_byte:
  "sendRemoteRequest
     \<lparr>inp = [0x05, 0x01, 0x00, 0x01, 93, 184, 216, 34, 0x00, 0x50], out = [], wfails = [], closed = False\<rparr>
     \<lparr>inp = [0x05, 0x00, 0x00, 0x03, 0x01, 0x61, 0x00, 0x50], out = [], wfails = [], closed = False\<rparr>
   = (\<lparr>inp = [], out = [0x05, 0x00, 0x00, 0x03, 0x61, 0x00, 0x50], wfails = [], closed = False\<rparr>,
      \<lparr>inp = [], out = [0x05, 0x01, 0x00, 0x01, 93, 184, 216, 34, 0x00, 0x50], wfails = [], closed = False\<rparr>,
      None)"
  by (simp add: sendRemoteRequest_def readSocks5Request_def readSocks5Response_def
        replyFailure_def ReadFull_def Write_def)

subsection \<open>Upstream authentication\<close>

lemma Write_ok:
  "\<not> (wfails c \<noteq> [] \<and> hd (wfails c)) \<Longrightarrow>
     Write c b = (c\<lparr>out := out c @ b, wfails := tl (wfails c)\<rparr>, None)"
  by (cases "wfails c") (simp_all add: Write_def)

lemma no_failure_among_two:
  assumes "True \<notin> set (take 2 ws)"
  shows "\<not> (ws \<noteq> [] \<and> hd ws)" and "\<not> (tl ws \<noteq> [] \<and> hd (tl ws))"
proof -
  show "\<not> (ws \<noteq> [] \<and> hd ws)"
    using assms by (cases ws) auto
  show "\<not> (tl ws \<noteq> [] \<and> hd (tl ws))"
    using assms by (cases ws; cases "tl ws") auto
qed

lemma authenticateRemoteSocks_status:
  assumes "True \<notin> set (take 2 (wfails conn))"
    and "inp conn = v1 # USERNAME_PASSWORD_AUTH # v2 # status # rest"
  shows "authenticateRemoteSocks conn username password =
           (conn\<lparr>inp := rest,
                 out := out conn @ [SOCKS_VERSION, 0x01, USERNAME_PASSWORD_AUTH]
                          @ authRequest username password,
                 wfails := tl (tl (wfails conn))\<rparr>,
            if status = STATUS_OK then None else Some AuthenticationFailed)"
proof -
  note nf = no_failure_among_two [OF assms(1)]
  define c1 where "c1 = conn\<lparr>out := out conn @ [SOCKS_VERSION, 0x01, USERNAME_PASSWORD_AUTH],
                              wfails := tl (wfails conn)\<rparr>"
  have w1: "Write conn [SOCKS_VERSION, 0x01, USERNAME_PASSWORD_AUTH] = (c1, None)"
    unfolding c1_def by (rule Write_ok [OF nf(1)])
  define c2 where "c2 = c1\<lparr>inp := v2 # status # rest\<rparr>"
  have r1: "ReadFull c1 2 = (c2, Inr [v1, USERNAME_PASSWORD_AUTH])"
    using assms(2) by (simp add: ReadFull_def c1_def c2_def)
  define c3 where "c3 = c2\<lparr>out := out c2 @ authRequest username password,
                            wfails := tl (wfails c2)\<rparr>"
  have w2: "Write c2 (authRequest username password) = (c3, None)"
    unfolding c3_def using nf(2) by (intro Write_ok) (simp add: c2_def c1_def)
  have r2: "ReadFull c3 2 = (c3\<lparr>inp := rest\<rparr>, Inr [v2, status])"
    by (simp add: ReadFull_def c3_def c2_def)
  have e: "c3\<lparr>inp := rest\<rparr> =
             conn\<lparr>inp := rest,
                  out := out conn @ [SOCKS_VERSION, 0x01, USERNAME_PASSWORD_AUTH]
                           @ authRequest username password,
                  wfails := tl (tl (wfails conn))\<rparr>"
    by (simp add: c3_def c2_def c1_def)
  show ?thesis
    unfolding authenticateRemoteSocks_def w1
    by (simp add: r1 w2 r2 e)
qed

subsection \<open>The relay's outcome\<close>

lemma relay_settled_step: "relay_settled c r v s \<Longrightarrow> relay_settled c r v (relay_step a s)"
proof (cases a)
  case Caller
  assume "relay_settled c r v s"
  then show ?thesis
    unfolding Caller by (auto simp: relay_settled_def)
next
  case (Copier d)
  assume "relay_settled c r v s"
  then show ?thesis
    unfolding Copier by (cases d) (auto simp: relay_settled_def split: list.splits)
qed

lemma relay_settled_fold:
  "relay_settled c r v s \<Longrightarrow> relay_settled c r v (fold relay_step sched s)"
  by (induction sched arbitrary: s) (simp_all add: relay_settled_step)

lemma received_step: "received s = Some v \<Longrightarrow> received (relay_step a s) = Some v"
proof (cases a)
  case Caller
  assume "received s = Some v"
  then show ?thesis unfolding Caller by simp
next
  case (Copier d)
  assume "received s = Some v"
  then show ?thesis unfolding Copier by (cases d) (auto split: list.splits)
qed

lemma received_fold: "received s = Some v \<Longrightarrow> received (fold relay_step sched s) = Some v"
  by (induction sched arbitrary: s) (simp_all add: received_step)

lemma relay_settled_Caller:
  "relay_settled c r v s \<Longrightarrow> received (relay_step Caller s) = Some v"
  by (auto simp: relay_settled_def)

lemma relay_settled_progress:
  "relay_settled c r v s \<Longrightarrow> Caller \<in> set sched \<Longrightarrow>
     received (fold relay_step sched s) = Some v"
proof (induction sched arbitrary: s)
  case Nil
  then show ?case by simp
next
  case (Cons a sched)
  show ?case
  proof (cases "a = Caller")
    case True
    then show ?thesis
      using relay_settled_Caller [OF Cons.prems(1)] by (simp add: received_fold)
  next
    case False
    then have "Caller \<in> set sched" using Cons.prems(2) by simp
    then show ?thesis
      using Cons.IH [OF relay_settled_step [OF Cons.prems(1)]] by simp
  qed
qed

lemma copier_sends_hd:
  "copier_sends d err \<noteq> []"
  "hd (copier_sends d err) =
     (case err of None \<Rightarrow> None | Some e \<Rightarrow> if e = ECONNRESET then None else Some (ErrCopying d e))"
  by (auto simp: copier_sends_def split: option.splits)

lemma first_send_settles:
  "relay_settled c r (hd (copier_sends d (copy_err e1 e2 d)))
     (relay_step (Copier d) (relay_init e1 e2 c r))"
  using copier_sends_hd(1) [of d "copy_err e1 e2 d"]
  by (cases d; cases "copier_sends d (copy_err e1 e2 d)")
     (auto simp: relay_settled_def relay_init_def copy_err_def)

lemma relay_init_run:
  "case first_reporter sched of
     None \<Rightarrow> fold relay_step sched (relay_init e1 e2 c r) = relay_init e1 e2 c r
   | Some d \<Rightarrow>
       relay_settled c r (hd (copier_sends d (copy_err e1 e2 d)))
         (fold relay_step sched (relay_init e1 e2 c r))"
proof (induction sched rule: first_reporter.induct)
  case 1
  then show ?case by simp
next
  case (2 sched)
  have st: "relay_step Caller (relay_init e1 e2 c r) = relay_init e1 e2 c r"
    by (simp add: relay_init_def)
  show ?case using 2 by (simp add: st del: relay_step.simps split: option.splits)
next
  case (3 d sched)
  show ?case
    using relay_settled_fold [OF first_send_settles [of c r d e1 e2], of sched] by simp
qed

lemma relay_init_skip_Caller:
  "fold relay_step sched (relay_init e1 e2 c r) =
     fold relay_step (dropWhile (\<lambda>a. a = Caller) sched) (relay_init e1 e2 c r)"
proof (induction sched)
  case Nil
  then show ?case by simp
next
  case (Cons a sched)
  have st: "relay_step Caller (relay_init e1 e2 c r) = relay_init e1 e2 c r"
    by (simp add: relay_init_def)
  show ?case using Cons by (simp add: st del: relay_step.simps)
qed

lemma first_reporter_dropWhile:
  "first_reporter sched = Some d \<Longrightarrow>
     \<exists>rest. dropWhile (\<lambda>a. a = Caller) sched = Copier d # rest"
  by (induction sched rule: first_reporter.induct) auto

lemma syncConns_progress:
  assumes "first_reporter sched \<noteq> None"
    and "Caller \<in> set (dropWhile (\<lambda>a. a = Caller) sched)"
  shows "syncConns sched e1 e2 c r \<noteq> None"
proof -
  from assms(1) obtain d where d: "first_reporter sched = Some d" by auto
  then obtain rest where rest: "dropWhile (\<lambda>a. a = Caller) sched = Copier d # rest"
    using first_reporter_dropWhile by blast
  with assms(2) have c: "Caller \<in> set rest" by simp
  have "received (fold relay_step rest (relay_step (Copier d) (relay_init e1 e2 c r)))
          = Some (hd (copier_sends d (copy_err e1 e2 d)))"
    by (rule relay_settled_progress [OF first_send_settles c])
  then have "received (fold relay_step sched (relay_init e1 e2 c r))
          = Some (hd (copier_sends d (copy_err e1 e2 d)))"
    by (subst relay_init_skip_Caller) (simp add: rest del: relay_step.simps)
  then show ?thesis
    by (simp add: syncConns_def Let_def)
qed

text \<open>
  Claim C8, as stated, fails: which outcome the relay returns depends on which copy
  direction reports first. In the first run the client-to-remote copy ends with a broken
  pipe and reports before the remote-to-client copy, which ends with a reset by the
  peer: the relay returns the error although one direction was reset. In the second run
  the client-to-remote copy ends cleanly and the caller returns; the remote-to-client
  copy then fails on the closed connection, an I/O failure that is never returned.
\<close>

theorem syncConns_counterexample:
  "syncConns [Copier ClientToRemote, Copier RemoteToClient, Caller] (Some EPIPE) (Some ECONNRESET)
      \<lparr>inp = [], out = [], wfails = [], closed = False\<rparr>
      \<lparr>inp = [], out = [], wfails = [], closed = False\<rparr>
     = Some (\<lparr>inp = [], out = [], wfails = [], closed = True\<rparr>,
             \<lparr>inp = [], out = [], wfails = [], closed = True\<rparr>,
             Some (ErrCopying ClientToRemote EPIPE))
   \<and> syncConns [Copier ClientToRemote, Caller, Copier RemoteToClient] None (Some ErrClosed)
      \<lparr>inp = [], out = [], wfails = [], closed = False\<rparr>
      \<lparr>inp = [], out = [], wfails = [], closed = False\<rparr>
     = Some (\<lparr>inp = [], out = [], wfails = [], closed = True\<rparr>,
             \<lparr>inp = [], out = [], wfails = [], closed = True\<rparr>,
             None)"
  by (simp add: syncConns_def relay_init_def copier_sends_def Close_def)

text \<open>
  Claim C8, amended. Whenever \<open>syncConns\<close> returns, both connections have been closed,
  and what it returns is decided by the copy direction whose goroutine reports first:
  no error if that copy ended with a reset by the peer or without error, and the wrapped
  failure if it ended with any other I/O failure. And it does return under every
  schedule in which the caller takes a step after some goroutine has taken one.
\<close>

theorem syncConns_returns_first_report:
  "(\<forall>c' r' res.
      syncConns sched err_c2r err_r2c clientConn remoteConn = Some (c', r', res) \<longrightarrow>
        c' = Close clientConn \<and> r' = Close remoteConn \<and> closed c' \<and> closed r' \<and>
        (\<exists>d. first_reporter sched = Some d \<and>
             (copy_err err_c2r err_r2c d = Some ECONNRESET \<longrightarrow> res = None) \<and>
             (copy_err err_c2r err_r2c d = None \<longrightarrow> res = None) \<and>
             (\<forall>e. copy_err err_c2r err_r2c d = Some e \<and> e \<noteq> ECONNRESET \<longrightarrow>
                    res = Some (ErrCopying d e)))) \<and>
   (first_reporter sched \<noteq> None \<and> Caller \<in> set (dropWhile (\<lambda>a. a = Caller) sched) \<longrightarrow>
      syncConns sched err_c2r err_r2c clientConn remoteConn \<noteq> None)"
proof (intro conjI allI impI)
  fix c' r' res
  assume s: "syncConns sched err_c2r err_r2c clientConn remoteConn = Some (c', r', res)"
  define final where "final = fold relay_step sched (relay_init err_c2r err_r2c clientConn remoteConn)"
  from s have f: "received final = Some res" "rl_client final = c'" "rl_remote final = r'"
    by (auto simp: syncConns_def Let_def final_def split: option.splits)
  note run = relay_init_run [of sched err_c2r err_r2c clientConn remoteConn]
  obtain d where d: "first_reporter sched = Some d"
  proof (cases "first_reporter sched")
    case None
    with run have "final = relay_init err_c2r err_r2c clientConn remoteConn"
      by (simp add: final_def)
    with f(1) show ?thesis by (simp add: relay_init_def)
  next
    case (Some d)
    then show ?thesis using that by simp
  qed
  with run have "relay_settled clientConn remoteConn
                   (hd (copier_sends d (copy_err err_c2r err_r2c d))) final"
    by (simp add: final_def)
  with f have res: "res = hd (copier_sends d (copy_err err_c2r err_r2c d))"
    and c: "c' = Close clientConn" and r: "r' = Close remoteConn"
    by (auto simp: relay_settled_def)
  show "c' = Close clientConn" by (rule c)
  show "r' = Close remoteConn" by (rule r)
  show "closed c'" by (simp add: c Close_def)
  show "closed r'" by (simp add: r Close_def)
  show "\<exists>d. first_reporter sched = Some d \<and>
             (copy_err err_c2r err_r2c d = Some ECONNRESET \<longrightarrow> res = None) \<and>
             (copy_err err_c2r err_r2c d = None \<longrightarrow> res = None) \<and>
             (\<forall>e. copy_err err_c2r err_r2c d = Some e \<and> e \<noteq> ECONNRESET \<longrightarrow>
                    res = Some (ErrCopying d e))"
    using d by (auto simp: res copier_sends_hd(2))
next
  assume "first_reporter sched \<noteq> None \<and> Caller \<in> set (dropWhile (\<lambda>a. a = Caller) sched)"
  then show "syncConns sched err_c2r err_r2c clientConn remoteConn \<noteq> None"
    using syncConns_progress by blast
qed

theorem syncConns_returns_first_report_witness:
  "syncConns [Caller, Copier RemoteToClient, Copier ClientToRemote, Caller]
      (Some EPIPE) (Some ECONNRESET)
      \<lparr>inp = [], out = [], wfails = [], closed = False\<rparr>
      \<lparr>inp = [], out = [], wfails = [], closed = False\<rparr>
     = Some (\<lparr>inp = [], out = [], wfails = [], closed = True\<rparr>,
             \<lparr>inp = [], out = [], wfails = [], closed = True\<rparr>,
             None)
   \<and> first_reporter [Caller, Copier RemoteToClient, Copier ClientToRemote, Caller]
     = Some RemoteToClient
   \<and> copy_err (Some EPIPE) (Some ECONNRESET) RemoteToClient = Some ECONNRESET"
  using syncConns_returns_first_report
          [of "[Caller, Copier RemoteToClient, Copier ClientToRemote, Caller]"
              "Some EPIPE" "Some ECONNRESET"
              "\<lparr>inp = [], out = [], wfails = [], closed = False\<rparr>"
              "\<lparr>inp = [], out = [], wfails = [], closed = False\<rparr>"]
  by (auto simp: copy_err_def Close_def)

subsection \<open>The session after the authentication\<close>

lemma readSocks5Request_out:
  "readSocks5Request c = (c1, Inr request) \<Longrightarrow> out c1 = out c"
  by (auto simp: readSocks5Request_def ReadFull_def Let_def
      split: prod.splits sum.splits if_splits)

lemma readSocks5Response_out:
  "readSocks5Response c = (c1, Inr response) \<Longrightarrow> out c1 = out c"
  by (auto simp: readSocks5Response_def ReadFull_def Let_def
      split: prod.splits sum.splits if_splits option.splits)

lemma Write_out: "Write c b = (c', e) \<Longrightarrow> out c' = out c @ b"
  by (auto simp: Write_def split: list.splits)

lemma sendRemoteRequest_success:
  assumes "sendRemoteRequest c r = (c2, r2, None)"
  shows "\<exists>request response.
           snd (readSocks5Request c) = Inr request \<and>
           out r2 = out r @ request \<and> out c2 = out c @ response"
proof -
  obtain c1 q where q: "readSocks5Request c = (c1, q)" by (cases "readSocks5Request c")
  with assms obtain request where rq: "q = Inr request"
    by (cases q) (auto simp: sendRemoteRequest_def)
  obtain r1 e1 where w1: "Write r request = (r1, e1)" by (cases "Write r request")
  with assms q rq have e1: "e1 = None"
    by (cases e1) (auto simp: sendRemoteRequest_def)
  obtain r2' p where p: "readSocks5Response r1 = (r2', p)" by (cases "readSocks5Response r1")
  with assms q rq w1 e1 obtain response where rp: "p = Inr response"
    by (cases p) (auto simp: sendRemoteRequest_def)
  obtain c2' e2 where w2: "Write c1 response = (c2', e2)" by (cases "Write c1 response")
  with assms q rq w1 e1 p rp have fin: "c2 = c2'" "r2 = r2'"
    by (cases e2; auto simp: sendRemoteRequest_def)+
  have "out r2 = out r @ request"
    using readSocks5Response_out [of r1 r2' response] p rp Write_out [OF w1] fin by simp
  moreover have "out c2 = out c @ response"
    using readSocks5Request_out [of c c1 request] q rq Write_out [OF w2] fin by simp
  ultimately show ?thesis using q rq by auto
qed

lemma syncConns_closes:
  assumes "syncConns sched e1 e2 c r = Some (c', r', res)"
  shows "c' = Close c \<and> r' = Close r"
proof -
  define final where "final = fold relay_step sched (relay_init e1 e2 c r)"
  from assms have f: "received final = Some res" "rl_client final = c'" "rl_remote final = r'"
    by (auto simp: syncConns_def Let_def final_def split: option.splits)
  note run = relay_init_run [of sched e1 e2 c r]
  show ?thesis
  proof (cases "first_reporter sched")
    case None
    with run have "final = relay_init e1 e2 c r" by (simp add: final_def)
    with f(1) show ?thesis by (simp add: relay_init_def)
  next
    case (Some d)
    with run have "relay_settled c r (hd (copier_sends d (copy_err e1 e2 d))) final"
      by (simp add: final_def)
    with f show ?thesis by (auto simp: relay_settled_def)
  qed
qed

text \<open>
  Claim C5, as stated, fails: a status reply of \<open>0x00\<close> does not take the session to
  the relay stage by itself. Here the upstream accepts the credentials and the client's
  request is a BIND: the authentication succeeds, the forwarding stage is entered and
  fails, and the relay is never started.
\<close>

theorem upstream_auth_counterexample:
  "s_stages (handleConnection
      \<lparr>inp = [0x05, 0x01, 0x00, 0x05, 0x02, 0x00, 0x01, 93, 184, 216, 34, 0x00, 0x50],
        out = [], wfails = [], closed = False\<rparr>
      (Inr \<lparr>inp = [0x05, 0x02, 0x01, 0x00], out = [], wfails = [], closed = False\<rparr>)
      [0x75] [0x70] [Copier ClientToRemote, Caller] None None)
     = [Greet, Dial, Authenticate, Forward]
   \<and> s_reported (handleConnection
      \<lparr>inp = [0x05, 0x01, 0x00, 0x05, 0x02, 0x00, 0x01, 93, 184, 216, 34, 0x00, 0x50],
        out = [], wfails = [], closed = False\<rparr>
      (Inr \<lparr>inp = [0x05, 0x02, 0x01, 0x00], out = [], wfails = [], closed = False\<rparr>)
      [0x75] [0x70] [Copier ClientToRemote, Caller] None None)
     = Some (ErrSendingRequest (ErrReadingRequestFromClient (UnsupportedCommand 0x02)))
   \<and> snd (authenticateRemoteSocks
      \<lparr>inp = [0x05, 0x02, 0x01, 0x00], out = [], wfails = [], closed = False\<rparr> [0x75] [0x70])
     = None"
  by (simp add: handleConnection_def greetClient_def authenticateRemoteSocks_def authRequest_eq
        sendRemoteRequest_def readSocks5Request_def ReadFull_def Write_def Close_def)

text \<open>
  Claim C5, amended. Take an authentication exchange that gets as far as the status
  reply: the client was greeted, neither of the two writes to the upstream reports an
  error, and the upstream answers the method offer with username/password and the
  request with the byte \<open>status\<close>.

  If \<open>status\<close> is \<open>0x00\<close>, \<open>authenticateRemoteSocks\<close> returns no error, having
  handed the upstream the method offer and the credentials and read the two replies, and
  \<open>handleConnection\<close> goes on with \<open>sendRemoteRequest\<close> on the greeted client and
  that upstream connection. Where the forwarding fails, the session ends with the
  connections as the forwarding left them, the upstream closed, and the forwarding error
  reported. Where it succeeds, the upstream has been handed the client's request and the
  client a reply, and the relay runs on these two connections: while it has not
  returned, neither has the handler; once it returns, both connections are closed and
  its error, if any, is reported. So the relay is started exactly when the forwarding
  succeeds.

  If \<open>status\<close> is any other byte, \<open>authenticateRemoteSocks\<close> fails with the
  authentication error, and \<open>handleConnection\<close> reports it and returns after the
  authentication stage: the client is as the greeting left it, the upstream was handed
  the method offer and the credentials and nothing else, and neither forwarding nor
  relay is entered.
\<close>

theorem upstream_auth_status_gates_session:
  assumes "greetClient clientConn = (c1, None)"
    and "True \<notin> set (take 2 (wfails remoteConn))"
    and "inp remoteConn = v1 # USERNAME_PASSWORD_AUTH # v2 # status # rest"
  shows "let (r1, auth) = authenticateRemoteSocks remoteConn user pass;
             h = handleConnection clientConn (Inr remoteConn) user pass sched err_c2r err_r2c;
             (c2, r2, fwd) = sendRemoteRequest c1 r1
         in (status = STATUS_OK \<longrightarrow>
               auth = None \<and> inp r1 = rest \<and>
               out r1 = out remoteConn @ [SOCKS_VERSION, 0x01, USERNAME_PASSWORD_AUTH]
                          @ authRequest user pass \<and>
               Forward \<in> set (s_stages h) \<and>
               (Relay \<in> set (s_stages h) \<longleftrightarrow> snd (snd (sendRemoteRequest c1 r1)) = None) \<and>
               (\<forall>err. fwd = Some err \<longrightarrow>
                  s_client h = c2 \<and> s_remote h = Some (Close r2) \<and>
                  s_reported h = Some (ErrSendingRequest err) \<and> s_returned h) \<and>
               (fwd = None \<longrightarrow>
                  (\<exists>request response.
                     snd (readSocks5Request c1) = Inr request \<and>
                     out r2 = out r1 @ request \<and> out c2 = out c1 @ response) \<and>
                  (syncConns sched err_c2r err_r2c c2 r2 = None \<longrightarrow>
                     s_client h = c2 \<and> s_remote h = Some r2 \<and>
                     s_reported h = None \<and> \<not> s_returned h) \<and>
                  (\<forall>c3 r3 res. syncConns sched err_c2r err_r2c c2 r2 = Some (c3, r3, res) \<longrightarrow>
                     s_client h = Close c2 \<and> s_remote h = Some (Close r2) \<and>
                     s_reported h = map_option ErrSyncing res \<and> s_returned h))) \<and>
            (status \<noteq> STATUS_OK \<longrightarrow>
               auth = Some AuthenticationFailed \<and>
               s_reported h = Some (ErrAuthenticating AuthenticationFailed) \<and>
               s_returned h \<and> s_stages h = [Greet, Dial, Authenticate] \<and>
               s_client h = c1 \<and>
               (\<exists>r. s_remote h = Some r \<and>
                    out r = out remoteConn @ [SOCKS_VERSION, 0x01, USERNAME_PASSWORD_AUTH]
                              @ authRequest user pass))"
proof -
  define r1 where "r1 = remoteConn\<lparr>inp := rest,
                 out := out remoteConn @ [SOCKS_VERSION, 0x01, USERNAME_PASSWORD_AUTH]
                          @ authRequest user pass,
                 wfails := tl (tl (wfails remoteConn))\<rparr>"
  have a: "authenticateRemoteSocks remoteConn user pass =
             (r1, if status = STATUS_OK then None else Some AuthenticationFailed)"
    unfolding r1_def by (rule authenticateRemoteSocks_status [OF assms(2,3)])
  have r1_io: "inp r1 = rest"
    "out r1 = out remoteConn @ [SOCKS_VERSION, 0x01, USERNAME_PASSWORD_AUTH] @ authRequest user pass"
    by (simp_all add: r1_def)
  obtain c2 r2 fwd where s: "sendRemoteRequest c1 r1 = (c2, r2, fwd)"
    by (cases "sendRemoteRequest c1 r1")
  define h where "h = handleConnection clientConn (Inr remoteConn) user pass sched err_c2r err_r2c"
  show ?thesis
  proof (cases "status = STATUS_OK")
    case False
    then show ?thesis
      by (simp add: handleConnection_def assms(1) a Close_def r1_def split: prod.splits)
  next
    case True
    have failed: "s_client h = c2 \<and> s_remote h = Some (Close r2) \<and>
                  s_reported h = Some (ErrSendingRequest err) \<and> s_returned h \<and>
                  s_stages h = [Greet, Dial, Authenticate, Forward]"
      if "fwd = Some err" for err
      using that True by (simp add: h_def handleConnection_def assms(1) a s)
    have ok_io: "\<exists>request response.
                     snd (readSocks5Request c1) = Inr request \<and>
                     out r2 = out r1 @ request \<and> out c2 = out c1 @ response"
      if "fwd = None"
      using sendRemoteRequest_success [of c1 r1 c2 r2] s that by simp
    have st: "s_stages h = [Greet, Dial, Authenticate, Forward, Relay]" if "fwd = None"
      using that True
      by (auto simp: h_def handleConnection_def assms(1) a s split: option.splits)
    have running: "s_client h = c2 \<and> s_remote h = Some r2 \<and>
                     s_reported h = None \<and> \<not> s_returned h"
      if "fwd = None" "syncConns sched err_c2r err_r2c c2 r2 = None"
      using that True by (simp add: h_def handleConnection_def assms(1) a s)
    have ended: "s_client h = Close c2 \<and> s_remote h = Some (Close r2) \<and>
                     s_reported h = map_option ErrSyncing res \<and> s_returned h"
      if "fwd = None" "syncConns sched err_c2r err_r2c c2 r2 = Some (c3, r3, res)" for c3 r3 res
    proof -
      from syncConns_closes [OF that(2)] have c: "c3 = Close c2" "r3 = Close r2" by simp_all
      show ?thesis
        using that True
        by (cases res) (simp_all add: h_def handleConnection_def assms(1) a s c Close_def)
    qed
    have fw: "Forward \<in> set (s_stages h)"
      using failed st by (cases fwd) auto
    have rl: "Relay \<in> set (s_stages h) \<longleftrightarrow> fwd = None"
      using failed st by (cases fwd) auto
    show ?thesis
      using True r1_io failed ok_io running ended fw rl
      unfolding a s h_def [symmetric]
      by (simp add: Let_def s)
  qed
qed

theorem upstream_auth_status_gates_session_witness:
  "handleConnection
      \<lparr>inp = [0x05, 0x01, 0x00], out = [], wfails = [], closed = False\<rparr>
      (Inr \<lparr>inp = [0x05, 0x02, 0x01, 0x01], out = [], wfails = [], closed = False\<rparr>)
      [0x75] [0x70] [] None None
     = \<lparr>s_client = \<lparr>inp = [], out = [0x05, 0x00], wfails = [], closed = False\<rparr>,
        s_remote = Some \<lparr>inp = [], out = [0x05, 0x01, 0x02, 0x01, 0x01, 0x75, 0x01, 0x70],
                          wfails = [], closed = True\<rparr>,
        s_stages = [Greet, Dial, Authenticate],
        s_reported = Some (ErrAuthenticating AuthenticationFailed), s_returned = True\<rparr>
   \<and> handleConnection
      \<lparr>inp = [0x05, 0x01, 0x00, 0x05, 0x01, 0x00, 0x01, 93, 184, 216, 34, 0x00, 0x50],
        out = [], wfails = [], closed = False\<rparr>
      (Inr \<lparr>inp = [0x05, 0x02, 0x01, 0x00, 0x05, 0x00, 0x00, 0x01, 93, 184, 216, 34, 0x00, 0x50],
             out = [], wfails = [], closed = False\<rparr>)
      [0x75] [0x70] [Copier ClientToRemote, Caller] None None
     = \<lparr>s_client = \<lparr>inp = [],
                     out = [0x05, 0x00, 0x05, 0x00, 0x00, 0x01, 93, 184, 216, 34, 0x00, 0x50],
                     wfails = [], closed = True\<rparr>,
        s_remote = Some \<lparr>inp = [],
                          out = [0x05, 0x01, 0x02, 0x01, 0x01, 0x75, 0x01, 0x70,
                                 0x05, 0x01, 0x00, 0x01, 93, 184, 216, 34, 0x00, 0x50],
                          wfails = [], closed = True\<rparr>,
        s_stages = [Greet, Dial, Authenticate, Forward, Relay],
        s_reported = None, s_returned = True\<rparr>"
proof -
  have g1: "greetClient \<lparr>inp = [0x05, 0x01, 0x00], out = [], wfails = [], closed = False\<rparr>
              = (\<lparr>inp = [], out = [0x05, 0x00], wfails = [], closed = False\<rparr>, None)"
    by (simp add: greetClient_def ReadFull_def Write_def)
  have g2: "greetClient \<lparr>inp = [0x05, 0x01, 0x00, 0x05, 0x01, 0x00, 0x01, 93, 184, 216, 34, 0x00, 0x50],
                          out = [], wfails = [], closed = False\<rparr>
              = (\<lparr>inp = [0x05, 0x01, 0x00, 0x01, 93, 184, 216, 34, 0x00, 0x50],
                  out = [0x05, 0x00], wfails = [], closed = False\<rparr>, None)"
    by (simp add: greetClient_def ReadFull_def Write_def)
  have s: "sendRemoteRequest
             \<lparr>inp = [0x05, 0x01, 0x00, 0x01, 93, 184, 216, 34, 0x00, 0x50],
               out = [0x05, 0x00], wfails = [], closed = False\<rparr>
             \<lparr>inp = [0x05, 0x00, 0x00, 0x01, 93, 184, 216, 34, 0x00, 0x50],
               out = [0x05, 0x01, 0x02, 0x01, 0x01, 0x75, 0x01, 0x70], wfails = [], closed = False\<rparr>
           = (\<lparr>inp = [], out = [0x05, 0x00, 0x05, 0x00, 0x00, 0x01, 93, 184, 216, 34, 0x00, 0x50],
                wfails = [], closed = False\<rparr>,
              \<lparr>inp = [], out = [0x05, 0x01, 0x02, 0x01, 0x01, 0x75, 0x01, 0x70,
                                 0x05, 0x01, 0x00, 0x01, 93, 184, 216, 34, 0x00, 0x50],
                wfails = [], closed = False\<rparr>, None)"
    by (simp add: sendRemoteRequest_def readSocks5Request_def readSocks5Response_def
          replyFailure_def ReadFull_def Write_def)
  have rejected:
    "handleConnection
      \<lparr>inp = [0x05, 0x01, 0x00], out = [], wfails = [], closed = False\<rparr>
      (Inr \<lparr>inp = [0x05, 0x02, 0x01, 0x01], out = [], wfails = [], closed = False\<rparr>)
      [0x75] [0x70] [] None None
     = \<lparr>s_client = \<lparr>inp = [], out = [0x05, 0x00], wfails = [], closed = False\<rparr>,
        s_remote = Some \<lparr>inp = [], out = [0x05, 0x01, 0x02, 0x01, 0x01, 0x75, 0x01, 0x70],
                          wfails = [], closed = True\<rparr>,
        s_stages = [Greet, Dial, Authenticate],
        s_reported = Some (ErrAuthenticating AuthenticationFailed), s_returned = True\<rparr>"
    using upstream_auth_status_gates_session
            [OF g1, of "\<lparr>inp = [0x05, 0x02, 0x01, 0x01], out = [], wfails = [], closed = False\<rparr>"
                      "0x05" "0x01" "0x01" "[]" "[0x75]" "[0x70]" "[]" None None]
    by (simp add: Let_def handleConnection_def g1 authenticateRemoteSocks_def authRequest_eq
          ReadFull_def Write_def Close_def split: prod.splits)
  have accepted:
    "handleConnection
      \<lparr>inp = [0x05, 0x01, 0x00, 0x05, 0x01, 0x00, 0x01, 93, 184, 216, 34, 0x00, 0x50],
        out = [], wfails = [], closed = False\<rparr>
      (Inr \<lparr>inp = [0x05, 0x02, 0x01, 0x00, 0x05, 0x00, 0x00, 0x01, 93, 184, 216, 34, 0x00, 0x50],
             out = [], wfails = [], closed = False\<rparr>)
      [0x75] [0x70] [Copier ClientToRemote, Caller] None None
     = \<lparr>s_client = \<lparr>inp = [],
                     out = [0x05, 0x00, 0x05, 0x00, 0x00, 0x01, 93, 184, 216, 34, 0x00, 0x50],
                     wfails = [], closed = True\<rparr>,
        s_remote = Some \<lparr>inp = [],
                          out = [0x05, 0x01, 0x02, 0x01, 0x01, 0x75, 0x01, 0x70,
                                 0x05, 0x01, 0x00, 0x01, 93, 184, 216, 34, 0x00, 0x50],
                          wfails = [], closed = True\<rparr>,
        s_stages = [Greet, Dial, Authenticate, Forward, Relay],
        s_reported = None, s_returned = True\<rparr>"
    using upstream_auth_status_gates_session
            [OF g2, of "\<lparr>inp = [0x05, 0x02, 0x01, 0x00, 0x05, 0x00, 0x00, 0x01, 93, 184, 216, 34, 0x00, 0x50],
                         out = [], wfails = [], closed = False\<rparr>"
                      "0x05" "0x01" "0x00" "[0x05, 0x00, 0x00, 0x01, 93, 184, 216, 34, 0x00, 0x50]"
                      "[0x75]" "[0x70]" "[Copier ClientToRemote, Caller]" None None]
    by (simp add: Let_def handleConnection_def g2 authenticateRemoteSocks_def authRequest_eq
          ReadFull_def Write_def s syncConns_def relay_init_def copier_sends_def Close_def)
  show ?thesis using rejected accepted by blast
qed

subsection \<open>The resolver\<close>

lemma mset_diff_split:
  assumes "C \<subseteq># B" and "B \<subseteq># A"
  shows "A - C = (A - B) + (B - C)"
proof -
  from assms(1) obtain D where D: "B = C + D" by (auto simp: mset_subset_eq_exists_conv)
  from assms(2) obtain E where E: "A = B + E" by (auto simp: mset_subset_eq_exists_conv)
  show ?thesis by (simp add: D E)
qed

lemma mset_diff_diff_single: "x \<in># A \<Longrightarrow> A - (A - {#x#}) = {#x#}"
  by (metis add_left_cancel diff_subset_eq_self insert_DiffM2
      subset_mset.add_diff_inverse)

lemma Intn_less: "n > 0 \<Longrightarrow> Intn r n < n"
  by (simp add: Intn_def)

lemma loop_empty: "FindNordVpnServer_loop rnd probe k [] = ([], Inl NoSocksServerFound)"
  by (simp add: FindNordVpnServer_loop.simps)

lemma loop_hit:
  assumes "servers \<noteq> []"
    and "probe (Hostname (servers ! Intn (rnd k) (length servers)) @ '':1080'')"
  shows "FindNordVpnServer_loop rnd probe k servers =
           (servers, Inr (Hostname (servers ! Intn (rnd k) (length servers)) @ '':1080''))"
  using assms by (subst FindNordVpnServer_loop.simps) (simp add: Let_def)

lemma loop_miss:
  assumes "servers \<noteq> []"
    and "\<not> probe (Hostname (servers ! Intn (rnd k) (length servers)) @ '':1080'')"
  shows "FindNordVpnServer_loop rnd probe k servers =
           FindNordVpnServer_loop rnd probe (Suc k)
             (removeAtIndexNoOrder servers (int (Intn (rnd k) (length servers))))"
  using assms by (subst FindNordVpnServer_loop.simps) (simp add: Let_def)

lemma loop_invariant:
  "FindNordVpnServer_loop rnd probe k servers = (servers', res) \<Longrightarrow>
     mset servers' \<subseteq># mset servers \<and>
     (\<forall>s \<in># mset servers - mset servers'. \<not> probe (Hostname s @ '':1080'')) \<and>
     (\<forall>a. res = Inr a \<longrightarrow> (\<exists>s \<in> set servers'. a = Hostname s @ '':1080'' \<and> probe a)) \<and>
     (\<forall>e. res = Inl e \<longrightarrow> e = NoSocksServerFound \<and> servers' = [])"
proof (induction rnd probe k servers rule: FindNordVpnServer_loop.induct)
  case (1 rnd probe k servers)
  show ?case
  proof (cases "servers = []")
    case True
    with "1.prems" show ?thesis by (auto simp: loop_empty)
  next
    case False
    define i where "i = Intn (rnd k) (length servers)"
    have i: "i < length servers" using False by (simp add: i_def Intn_less)
    show ?thesis
    proof (cases "probe (Hostname (servers ! i) @ '':1080'')")
      case True
      with "1.prems" False have "servers' = servers" "res = Inr (Hostname (servers ! i) @ '':1080'')"
        by (auto simp: loop_hit i_def)
      with True i show ?thesis by auto
    next
      case miss: False
      define servers2 where "servers2 = removeAtIndexNoOrder servers (int i)"
      have m: "mset servers2 = mset servers - {#servers ! i#}"
        unfolding servers2_def by (rule removeAtIndexNoOrder_in_range(3) [OF i])
      have rec: "FindNordVpnServer_loop rnd probe (Suc k) servers2 = (servers', res)"
        using "1.prems" False miss by (simp add: loop_miss i_def servers2_def)
      have IH: "mset servers' \<subseteq># mset servers2 \<and>
         (\<forall>s \<in># mset servers2 - mset servers'. \<not> probe (Hostname s @ '':1080'')) \<and>
         (\<forall>a. res = Inr a \<longrightarrow> (\<exists>s \<in> set servers'. a = Hostname s @ '':1080'' \<and> probe a)) \<and>
         (\<forall>e. res = Inl e \<longrightarrow> e = NoSocksServerFound \<and> servers' = [])"
        unfolding servers2_def
      proof (rule "1.IH" [of i "Hostname (servers ! i) @ '':1080''"])
        show "\<not> length servers = 0" using False by simp
        show "i = Intn (rnd k) (length servers)" by (rule i_def)
        show "Hostname (servers ! i) @ '':1080'' = Hostname (servers ! i) @ '':1080''" by (rule refl)
        show "\<not> probe (Hostname (servers ! i) @ '':1080'')" by (rule miss)
        show "FindNordVpnServer_loop rnd probe (Suc k) (removeAtIndexNoOrder servers (int i)) = (servers', res)"
          using rec by (simp only: servers2_def)
      qed
      have sub2: "mset servers2 \<subseteq># mset servers" by (simp add: m)
      have sub: "mset servers' \<subseteq># mset servers"
        using IH sub2 by (meson subset_mset.order_trans)
      have split: "mset servers - mset servers' =
                     (mset servers - mset servers2) + (mset servers2 - mset servers')"
        using IH sub2 by (intro mset_diff_split) simp_all
      have gone: "mset servers - mset servers2 = {#servers ! i#}"
        using i by (simp add: m mset_diff_diff_single)
      have unreach: "\<forall>s \<in># mset servers - mset servers'. \<not> probe (Hostname s @ '':1080'')"
        using IH miss by (auto simp: split gone)
      show ?thesis using sub unreach IH by blast
    qed
  qed
qed

text \<open>
  Claim C4, as stated, fails for the empty pool, in which every candidate is
  unreachable: the resolver then asks the discovery for a new list, and where the list
  holds a reachable host the resolution succeeds and the pool ends with that host.
\<close>

theorem FindNordVpnServer_counterexample:
  "FindNordVpnServer id ((=) ''a:1080'') (Inr [example_server ''a'']) []
     = ([example_server ''a''], Inr ''a:1080'')"
  by (simp add: FindNordVpnServer_def FindNordVpnServer_loop.simps Intn_def example_server_def)

text \<open>
  Claim C4, amended. For a non-empty pool: the pool the resolution leaves is the pool
  it found less candidates that all failed their probe; if some candidate is reachable,
  the result is the address, host name and \<open>:1080\<close>, of a reachable candidate that is
  still in the pool; if none is, the resolution fails with the no-server error and the
  pool ends empty. And each failed probe, in the loop at any pool, continues the loop
  with the pool less exactly the probed entry.
\<close>

theorem FindNordVpnServer_resolves:
  assumes "servers \<noteq> []"
  shows "mset (fst (FindNordVpnServer rnd probe discovered servers)) \<subseteq># mset servers \<and>
     (\<forall>s \<in># mset servers - mset (fst (FindNordVpnServer rnd probe discovered servers)).
        \<not> probe (Hostname s @ '':1080'')) \<and>
     ((\<exists>s \<in> set servers. probe (Hostname s @ '':1080'')) \<longrightarrow>
        (\<exists>s \<in> set (fst (FindNordVpnServer rnd probe discovered servers)).
           s \<in> set servers \<and> probe (Hostname s @ '':1080'') \<and>
           snd (FindNordVpnServer rnd probe discovered servers) = Inr (Hostname s @ '':1080''))) \<and>
     ((\<forall>s \<in> set servers. \<not> probe (Hostname s @ '':1080'')) \<longrightarrow>
        FindNordVpnServer rnd probe discovered servers = ([], Inl NoSocksServerFound)) \<and>
     (\<forall>k pool. pool \<noteq> [] \<and>
        \<not> probe (Hostname (pool ! Intn (rnd k) (length pool)) @ '':1080'') \<longrightarrow>
          FindNordVpnServer_loop rnd probe k pool =
            FindNordVpnServer_loop rnd probe (Suc k)
              (removeAtIndexNoOrder pool (int (Intn (rnd k) (length pool)))) \<and>
          mset (removeAtIndexNoOrder pool (int (Intn (rnd k) (length pool)))) =
            mset pool - {#pool ! Intn (rnd k) (length pool)#})"
proof -
  obtain servers' res where r: "FindNordVpnServer_loop rnd probe 0 servers = (servers', res)"
    by (cases "FindNordVpnServer_loop rnd probe 0 servers")
  have f: "FindNordVpnServer rnd probe discovered servers = (servers', res)"
    using assms r by (simp add: FindNordVpnServer_def)
  note inv = loop_invariant [OF r]
  have sub: "mset servers' \<subseteq># mset servers" using inv by blast
  have gone: "\<forall>s \<in># mset servers - mset servers'. \<not> probe (Hostname s @ '':1080'')"
    using inv by blast
  have set_sub: "set servers' \<subseteq> set servers"
    using sub by (metis set_mset_mono set_mset_mset)
  have some: "\<exists>s \<in> set servers'. s \<in> set servers \<and> probe (Hostname s @ '':1080'') \<and>
                 res = Inr (Hostname s @ '':1080'')"
    if "\<exists>s \<in> set servers. probe (Hostname s @ '':1080'')"
  proof (cases res)
    case (Inl e)
    with inv have "servers' = []" by blast
    with gone have "\<forall>s \<in> set servers. \<not> probe (Hostname s @ '':1080'')" by simp
    with that show ?thesis by blast
  next
    case (Inr a)
    with inv obtain s where "s \<in> set servers'" "a = Hostname s @ '':1080''" "probe a" by blast
    with Inr set_sub show ?thesis by blast
  qed
  have none: "servers' = [] \<and> res = Inl NoSocksServerFound"
    if "\<forall>s \<in> set servers. \<not> probe (Hostname s @ '':1080'')"
  proof (cases res)
    case (Inl e)
    with inv show ?thesis by blast
  next
    case (Inr a)
    with inv obtain s where "s \<in> set servers'" "a = Hostname s @ '':1080''" "probe a" by blast
    with that set_sub show ?thesis by blast
  qed
  have step: "FindNordVpnServer_loop rnd probe k pool =
            FindNordVpnServer_loop rnd probe (Suc k)
              (removeAtIndexNoOrder pool (int (Intn (rnd k) (length pool)))) \<and>
          mset (removeAtIndexNoOrder pool (int (Intn (rnd k) (length pool)))) =
            mset pool - {#pool ! Intn (rnd k) (length pool)#}"
    if "pool \<noteq> [] \<and> \<not> probe (Hostname (pool ! Intn (rnd k) (length pool)) @ '':1080'')"
    for k pool
    using that loop_miss [of pool probe rnd k]
      removeAtIndexNoOrder_in_range(3) [of "Intn (rnd k) (length pool)" pool]
    by (simp add: Intn_less)
  show ?thesis
    unfolding f using sub gone some none step by simp
qed

theorem FindNordVpnServer_resolves_witness:
  "FindNordVpnServer id ((=) ''c:1080'') (Inl LookupError)
      [example_server ''a'', example_server ''b'', example_server ''c'']
     = ([example_server ''c''], Inr ''c:1080'')
   \<and> FindNordVpnServer id ((=) ''z:1080'') (Inl LookupError)
      [example_server ''a'', example_server ''b'', example_server ''c'']
     = ([], Inl NoSocksServerFound)"
proof -
  have one: "FindNordVpnServer id ((=) ''c:1080'') (Inl LookupError)
      [example_server ''a'', example_server ''b'', example_server ''c'']
     = ([example_server ''c''], Inr ''c:1080'')"
    by (simp add: FindNordVpnServer_def FindNordVpnServer_loop.simps Intn_def
          example_server_def removeAtIndexNoOrder_def)
  have none: "FindNordVpnServer id ((=) ''z:1080'') (Inl LookupError)
      [example_server ''a'', example_server ''b'', example_server ''c'']
     = ([], Inl NoSocksServerFound)"
    using FindNordVpnServer_resolves
            [of "[example_server ''a'', example_server ''b'', example_server ''c'']"
                id "(=) ''z:1080''" "Inl LookupError"]
    by (simp add: example_server_def)
  show ?thesis using one none by blast
qed

subsection \<open>The open-connection ceiling\<close>

text \<open>
  With a ceiling, no event takes a value out of the channel, so over the whole run of
  \<open>Start\<close> at most \<open>openConnLimit\<close> connections are admitted.
\<close>

lemma chan_send_bounds: "chan_send cap n = Some m \<Longrightarrow> m = Suc n \<and> m \<le> cap"
  by (auto simp: chan_send_def split: if_splits)

lemma Start_step_semaphore:
  assumes "0 < openConnLimit" and "Start_step openConnLimit ev s = Some s'"
    and "ConnCount s \<le> semaphore s" and "semaphore s \<le> openConnLimit"
  shows "ConnCount s' \<le> semaphore s' \<and> semaphore s' \<le> openConnLimit \<and> semaphore s \<le> semaphore s'"
  using assms
  by (cases ev) (auto dest!: chan_send_bounds split: if_splits option.splits)

lemma Start_run_semaphore:
  assumes "0 < openConnLimit" and "Start_run openConnLimit evs s = Some s'"
    and "ConnCount s \<le> semaphore s" and "semaphore s \<le> openConnLimit"
  shows "ConnCount s' \<le> semaphore s' \<and> semaphore s' \<le> openConnLimit \<and> semaphore s \<le> semaphore s'"
  using assms(2,3,4)
proof (induction evs arbitrary: s)
  case Nil
  then show ?case by simp
next
  case (Cons ev evs)
  from Cons.prems(1) obtain s1 where s1: "Start_step openConnLimit ev s = Some s1"
    and run: "Start_run openConnLimit evs s1 = Some s'"
    by (auto split: option.splits)
  note st = Start_step_semaphore [OF assms(1) s1 Cons.prems(2,3)]
  from Cons.IH [OF run] st show ?case by auto
qed

lemma Start_admits_at_most_limit:
  assumes "0 < openConnLimit" and "Start_run openConnLimit evs Start_init = Some s"
  shows "ConnCount s \<le> openConnLimit"
  using Start_run_semaphore [OF assms] by (simp add: Start_init_def)

text \<open>
  Claim C9 fails on the code. With a ceiling of 1, after one connection was admitted and
  has finished, its release (a second send on the full channel) cannot complete and the
  next admission cannot either. With a ceiling of 2, the first connection's release
  completes by filling the channel, and the next admission is blocked although no
  connection is open.
\<close>

theorem semaphore_never_released:
  "Start_run 1 [Admit, Finish] Start_init
     = Some \<lparr>semaphore = 1, OpenConnCount = 0, releasing = 1, ConnCount = 1\<rparr>
   \<and> Start_step 1 Release \<lparr>semaphore = 1, OpenConnCount = 0, releasing = 1, ConnCount = 1\<rparr> = None
   \<and> Start_step 1 Admit \<lparr>semaphore = 1, OpenConnCount = 0, releasing = 1, ConnCount = 1\<rparr> = None
   \<and> Start_run 2 [Admit, Finish, Release] Start_init
     = Some \<lparr>semaphore = 2, OpenConnCount = 0, releasing = 0, ConnCount = 1\<rparr>
   \<and> Start_step 2 Admit \<lparr>semaphore = 2, OpenConnCount = 0, releasing = 0, ConnCount = 1\<rparr> = None"
  by (simp add: Start_init_def chan_send_def)

end
